theory Spec2Isabelle
  imports Complex_Main "HOL-Library.Multiset"
begin

section \<open>Conventions of the embedding\<close>

text \<open>
  The development follows \<^verbatim>\<open>src/crm/logistics.py\<close> and the rows of
  \<^verbatim>\<open>src/crm/models.py\<close> it reads and writes.

  \<^item> Python floats are modelled by the real numbers; \<open>math.sin\<close>, \<open>math.cos\<close>,
    \<open>math.sqrt\<close> and \<open>math.atan2\<close> by their exact counterparts. Rounding, NaN and
    infinities are outside the model, with one exception: the summary operation of the road
    router is also modelled with the rounded value of the Haversine quantity \<open>a\<close> as a
    parameter, since rounding there decides whether the operation raises.
  \<^item> A nullable \<open>FloatField\<close> is a \<open>real option\<close>. Python tests such a value for
    truth, and both \<open>None\<close> and \<open>0.0\<close> are false.
  \<^item> A \<open>timedelta\<close> is a real number of minutes; its rounding to the microsecond and
    its range are outside the model.
  \<^item> Everything the program obtains from outside (settings, HTTP replies, the clock)
    is a field of a record the functions take as an argument.
  \<^item> A leading underscore of a Python name is dropped.
\<close>

type_synonym coord = "real \<times> real"

definition truthy :: "real option \<Rightarrow> bool" where
  "truthy v = (case v of None \<Rightarrow> False | Some x \<Rightarrow> x \<noteq> 0)"

text \<open>\<open>a or b\<close> on two nullable floats: \<open>a\<close> when it is true, else \<open>b\<close>.\<close>

definition por :: "real option \<Rightarrow> real option \<Rightarrow> real option" where
  "por a b = (if truthy a then a else b)"

text \<open>\<open>a or d\<close> where \<open>d\<close> is a float that is always present.\<close>

definition por_default :: "real option \<Rightarrow> real \<Rightarrow> real" where
  "por_default a d = (case a of None \<Rightarrow> d | Some x \<Rightarrow> if x \<noteq> 0 then x else d)"

text \<open>The truth value of a string that may be \<open>None\<close>: false when absent or empty.\<close>

definition truthy_str :: "string option \<Rightarrow> bool" where
  "truthy_str v = (case v of None \<Rightarrow> False | Some s \<Rightarrow> s \<noteq> [])"

text \<open>
  The exceptions of the model: a missing dictionary key, \<open>math.sqrt\<close> of a negative
  number, and a request that fails.
\<close>

datatype error = KeyError string | ValueError | RequestException

text \<open>
  \<open>try: body except Exception: handler\<close>, where both end in a \<open>return\<close>: the result
  of the body, or of the handler when the body raises.
\<close>

definition try_except :: "error + 'a \<Rightarrow> error + 'a \<Rightarrow> error + 'a" where
  "try_except body handler = (case body of Inl e \<Rightarrow> handler | Inr v \<Rightarrow> Inr v)"

section \<open>GPSTracker.calculate\_distance\<close>

definition radians :: "real \<Rightarrow> real" where
  "radians x = x * pi / 180"

definition atan2 :: "real \<Rightarrow> real \<Rightarrow> real" where
  "atan2 y x =
     (if 0 < x then arctan (y / x)
      else if x < 0 then (if 0 \<le> y then arctan (y / x) + pi else arctan (y / x) - pi)
      else if 0 < y then pi / 2
      else if y < 0 then - (pi / 2)
      else 0)"

text \<open>The quantity \<open>a\<close> of the Haversine formula (lines 83 to 89).\<close>

definition haversine_a :: "real \<Rightarrow> real \<Rightarrow> real \<Rightarrow> real \<Rightarrow> real" where
  "haversine_a lat1 lon1 lat2 lon2 =
     (let lat1_rad = radians lat1;
          lat2_rad = radians lat2;
          delta_lat = radians (lat2 - lat1);
          delta_lon = radians (lon2 - lon1)
      in (sin (delta_lat / 2))\<^sup>2 + cos lat1_rad * cos lat2_rad * (sin (delta_lon / 2))\<^sup>2)"

text \<open>
  \<open>math.sqrt\<close> raises \<open>ValueError\<close> on a negative argument. Lemma
  \<open>haversine_a_range\<close> below shows that over the reals neither \<open>a\<close> nor \<open>1 - a\<close>
  is ever negative, so in exact arithmetic the function has no error branch. In floating
  point the computed \<open>a\<close> can exceed 1 by rounding, for points that are nearly antipodal,
  and the function raises; \<open>calculate_distance_checked\<close> below keeps that branch.
\<close>

definition calculate_distance :: "real \<Rightarrow> real \<Rightarrow> real \<Rightarrow> real \<Rightarrow> real" where
  "calculate_distance lat1 lon1 lat2 lon2 =
     (let R = 6371;
          a = haversine_a lat1 lon1 lat2 lon2;
          c = 2 * atan2 (sqrt a) (sqrt (1 - a))
      in R * c)"

text \<open>The distance between two (latitude, longitude) pairs.\<close>

definition gc_dist :: "coord \<Rightarrow> coord \<Rightarrow> real" where
  "gc_dist p q = calculate_distance (fst p) (snd p) (fst q) (snd q)"

text \<open>
  The same function with the value of \<open>a\<close> that the floating-point evaluation of lines
  83 to 89 yields given by \<open>fl_a\<close>. \<open>math.sqrt(a)\<close> raises when that value is negative,
  \<open>math.sqrt(1 - a)\<close> when it exceeds 1.
\<close>

definition calculate_distance_checked ::
  "(real \<Rightarrow> real \<Rightarrow> real \<Rightarrow> real \<Rightarrow> real) \<Rightarrow> real \<Rightarrow> real \<Rightarrow> real \<Rightarrow> real
     \<Rightarrow> error + real" where
  "calculate_distance_checked fl_a lat1 lon1 lat2 lon2 =
     (let R = 6371;
          a = fl_a lat1 lon1 lat2 lon2
      in if a < 0 then Inl ValueError
         else if 1 - a < 0 then Inl ValueError
         else Inr (R * (2 * atan2 (sqrt a) (sqrt (1 - a)))))"

definition gc_dist_checked ::
  "(real \<Rightarrow> real \<Rightarrow> real \<Rightarrow> real \<Rightarrow> real) \<Rightarrow> coord \<Rightarrow> coord \<Rightarrow> error + real" where
  "gc_dist_checked fl_a p q = calculate_distance_checked fl_a (fst p) (snd p) (fst q) (snd q)"

section \<open>RouteService\<close>

text \<open>
  What a routing provider answers to the request for the metrics of a route. The code
  reads a reply in a \<open>try\<close> block whose handler catches every exception, so all the ways
  a request can fail are one value:
  \<^item> \<open>SummaryError\<close>: the request raised (network error, timeout, HTTP error status),
    the body is not JSON, or a field the code reads is missing, of the wrong type, or an
    integer too large for the float division by 1000 or 60 (\<open>OverflowError\<close>);
  \<^item> \<open>SummaryEmpty\<close>: the body has no \<open>routes\<close> (\<open>features\<close>) entry, or an empty one;
  \<^item> \<open>SummaryRoute d t\<close>: the first route has distance \<open>d\<close> metres and duration
    \<open>t\<close> seconds.
\<close>

datatype summary_reply = SummaryError | SummaryEmpty | SummaryRoute real real

text \<open>
  What a provider answers to the request for the geometry of a route:
  \<^item> \<open>GeometryError\<close>: as above;
  \<^item> \<open>GeometryEmpty\<close>: no route in the body;
  \<^item> \<open>GeometryOther\<close>: the first route's geometry is not a \<open>LineString\<close>;
  \<^item> \<open>GeometryLineString cs\<close>: a line of (longitude, latitude) points.
\<close>

datatype geometry_reply =
  GeometryError | GeometryEmpty | GeometryOther | GeometryLineString "(real \<times> real) list"

text \<open>
  Django settings read with \<open>getattr(settings, name, default)\<close>: \<open>None\<close> is an absent
  setting.
\<close>

record settings =
  EXTERNAL_ROUTING_ENABLED :: "bool option"
  OPENROUTE_API_KEY :: "string option"

text \<open>
  The network: the reply to each request the code sends, as a function of what the
  request carries. OpenRouteService is asked twice with the same request (once for the
  metrics, once for the geometry); each call has its own reply.
\<close>

record network =
  openroute_summary_reply :: "(real \<times> real) list \<Rightarrow> string \<Rightarrow> summary_reply"
  openroute_route_reply :: "(real \<times> real) list \<Rightarrow> string \<Rightarrow> geometry_reply"
  osrm_summary_reply :: "(real \<times> real) list \<Rightarrow> string \<Rightarrow> summary_reply"
  osrm_route_reply :: "(real \<times> real) list \<Rightarrow> string \<Rightarrow> geometry_reply"
  geocode_reply :: "string \<Rightarrow> (real \<times> real) option"

record route_summary =
  distance :: real
  duration :: real
  coordinates :: "coord list"

definition routing_enabled :: "settings \<Rightarrow> bool" where
  "routing_enabled s = (case EXTERNAL_ROUTING_ENABLED s of None \<Rightarrow> True | Some b \<Rightarrow> b)"

definition osrm_profile_map :: "string \<rightharpoonup> string" where
  "osrm_profile_map =
     [''driving-car'' \<mapsto> ''driving'', ''driving-hgv'' \<mapsto> ''driving'',
      ''cycling-regular'' \<mapsto> ''cycling'', ''foot-walking'' \<mapsto> ''walking'']"

definition translate_profile_for_osrm :: "string \<Rightarrow> string" where
  "translate_profile_for_osrm profile =
     (case osrm_profile_map profile of Some p \<Rightarrow> p | None \<Rightarrow> ''driving'')"

text \<open>Both providers take (longitude, latitude); the code swaps each waypoint.\<close>

definition lon_lat :: "coord list \<Rightarrow> (real \<times> real) list" where
  "lon_lat waypoints = map (\<lambda>(lat, lon). (lon, lat)) waypoints"

definition get_openroute_route :: "network \<Rightarrow> coord list \<Rightarrow> string \<Rightarrow> coord list" where
  "get_openroute_route net waypoints profile =
     (case openroute_route_reply net (lon_lat waypoints) profile of
        GeometryLineString cs \<Rightarrow> map (\<lambda>c. (snd c, fst c)) cs
      | GeometryOther \<Rightarrow> waypoints
      | GeometryEmpty \<Rightarrow> waypoints
      | GeometryError \<Rightarrow> waypoints)"

definition get_osrm_route :: "network \<Rightarrow> coord list \<Rightarrow> string \<Rightarrow> coord list" where
  "get_osrm_route net waypoints profile =
     (let osrm_profile = translate_profile_for_osrm profile
      in case osrm_route_reply net (lon_lat waypoints) osrm_profile of
           GeometryLineString cs \<Rightarrow> map (\<lambda>c. (snd c, fst c)) cs
         | GeometryOther \<Rightarrow> waypoints
         | GeometryEmpty \<Rightarrow> waypoints
         | GeometryError \<Rightarrow> waypoints)"

definition get_route_coordinates ::
  "settings \<Rightarrow> network \<Rightarrow> coord list \<Rightarrow> string \<Rightarrow> coord list" where
  "get_route_coordinates s net waypoints profile =
     (if length waypoints < 2 then waypoints
      else if \<not> routing_enabled s then waypoints
      else if truthy_str (OPENROUTE_API_KEY s) then get_openroute_route net waypoints profile
      else get_osrm_route net waypoints profile)"

text \<open>
  The loop of lines 588 to 592 runs \<open>i\<close> over \<open>range(len(waypoints) - 1)\<close>, which is
  empty for an empty list as well; every index it reads is in range.
\<close>

definition calculate_straight_line_summary :: "coord list \<Rightarrow> route_summary" where
  "calculate_straight_line_summary waypoints =
     (let total_distance =
            foldl (\<lambda>total i. total + gc_dist (waypoints ! i) (waypoints ! (i + 1)))
              0 [0 ..< length waypoints - 1];
          estimated_time = (total_distance / 25) * 60
      in \<lparr>distance = total_distance, duration = estimated_time, coordinates = waypoints\<rparr>)"

definition get_openroute_summary :: "network \<Rightarrow> coord list \<Rightarrow> string \<Rightarrow> route_summary" where
  "get_openroute_summary net waypoints profile =
     (case openroute_summary_reply net (lon_lat waypoints) profile of
        SummaryRoute d t \<Rightarrow>
          (let coordinates = get_openroute_route net waypoints profile
           in \<lparr>distance = d / 1000, duration = t / 60, coordinates = coordinates\<rparr>)
      | SummaryEmpty \<Rightarrow> calculate_straight_line_summary waypoints
      | SummaryError \<Rightarrow> calculate_straight_line_summary waypoints)"

definition get_osrm_summary :: "network \<Rightarrow> coord list \<Rightarrow> string \<Rightarrow> route_summary" where
  "get_osrm_summary net waypoints profile =
     (let osrm_profile = translate_profile_for_osrm profile
      in case osrm_summary_reply net (lon_lat waypoints) osrm_profile of
           SummaryRoute d t \<Rightarrow>
             (let coordinates = get_osrm_route net waypoints profile
              in \<lparr>distance = d / 1000, duration = t / 60, coordinates = coordinates\<rparr>)
         | SummaryEmpty \<Rightarrow> calculate_straight_line_summary waypoints
         | SummaryError \<Rightarrow> calculate_straight_line_summary waypoints)"

text \<open>
  In exact arithmetic the handler of the outer \<open>try\<close> (lines 505 to 507) is never
  entered: both provider functions catch every exception themselves, and the straight-line
  computation does not raise. \<open>get_route_summary_checked\<close> below keeps the handlers.
\<close>

definition get_route_summary ::
  "settings \<Rightarrow> network \<Rightarrow> coord list \<Rightarrow> string \<Rightarrow> route_summary" where
  "get_route_summary s net waypoints profile =
     (if \<not> routing_enabled s then calculate_straight_line_summary waypoints
      else if truthy_str (OPENROUTE_API_KEY s) then get_openroute_summary net waypoints profile
      else get_osrm_summary net waypoints profile)"

text \<open>The reply to the metrics request of the provider the settings select.\<close>

definition selected_summary_reply ::
  "settings \<Rightarrow> network \<Rightarrow> coord list \<Rightarrow> string \<Rightarrow> summary_reply" where
  "selected_summary_reply s net waypoints profile =
     (if truthy_str (OPENROUTE_API_KEY s)
      then openroute_summary_reply net (lon_lat waypoints) profile
      else osrm_summary_reply net (lon_lat waypoints) (translate_profile_for_osrm profile))"

subsection \<open>The summary with the error branch of the distance\<close>

text \<open>
  The summary operation once more, with \<open>calculate_distance_checked\<close> for the distance
  and every \<open>try\<close> block of the code written out. The straight-line computation is
  called inside the \<open>try\<close> blocks and again in their handlers; where it raises in a
  handler, the exception leaves the function.
\<close>

text \<open>The body of the loop of lines 589 to 592; an exception ends the loop.\<close>

definition add_distance ::
  "(real \<Rightarrow> real \<Rightarrow> real \<Rightarrow> real \<Rightarrow> real) \<Rightarrow> coord list \<Rightarrow> error + real \<Rightarrow> nat
     \<Rightarrow> error + real" where
  "add_distance fl_a waypoints acc i =
     (case acc of
        Inl e \<Rightarrow> Inl e
      | Inr total_distance \<Rightarrow>
          (case gc_dist_checked fl_a (waypoints ! i) (waypoints ! (i + 1)) of
             Inl e \<Rightarrow> Inl e
           | Inr distance_km \<Rightarrow> Inr (total_distance + distance_km)))"

definition calculate_straight_line_summary_checked ::
  "(real \<Rightarrow> real \<Rightarrow> real \<Rightarrow> real \<Rightarrow> real) \<Rightarrow> coord list \<Rightarrow> error + route_summary" where
  "calculate_straight_line_summary_checked fl_a waypoints =
     (case foldl (add_distance fl_a waypoints) (Inr 0) [0 ..< length waypoints - 1] of
        Inl e \<Rightarrow> Inl e
      | Inr total_distance \<Rightarrow>
          (let estimated_time = (total_distance / 25) * 60
           in Inr \<lparr>distance = total_distance, duration = estimated_time,
                    coordinates = waypoints\<rparr>))"

definition get_openroute_summary_checked ::
  "network \<Rightarrow> (real \<Rightarrow> real \<Rightarrow> real \<Rightarrow> real \<Rightarrow> real) \<Rightarrow> coord list \<Rightarrow> string
     \<Rightarrow> error + route_summary" where
  "get_openroute_summary_checked net fl_a waypoints profile =
     try_except
       (case openroute_summary_reply net (lon_lat waypoints) profile of
          SummaryRoute d t \<Rightarrow>
            (let coordinates = get_openroute_route net waypoints profile
             in Inr \<lparr>distance = d / 1000, duration = t / 60, coordinates = coordinates\<rparr>)
        | SummaryEmpty \<Rightarrow> calculate_straight_line_summary_checked fl_a waypoints
        | SummaryError \<Rightarrow> Inl RequestException)
       (calculate_straight_line_summary_checked fl_a waypoints)"

definition get_osrm_summary_checked ::
  "network \<Rightarrow> (real \<Rightarrow> real \<Rightarrow> real \<Rightarrow> real \<Rightarrow> real) \<Rightarrow> coord list \<Rightarrow> string
     \<Rightarrow> error + route_summary" where
  "get_osrm_summary_checked net fl_a waypoints profile =
     try_except
       (let osrm_profile = translate_profile_for_osrm profile
        in case osrm_summary_reply net (lon_lat waypoints) osrm_profile of
             SummaryRoute d t \<Rightarrow>
               (let coordinates = get_osrm_route net waypoints profile
                in Inr \<lparr>distance = d / 1000, duration = t / 60, coordinates = coordinates\<rparr>)
           | SummaryEmpty \<Rightarrow> calculate_straight_line_summary_checked fl_a waypoints
           | SummaryError \<Rightarrow> Inl RequestException)
       (calculate_straight_line_summary_checked fl_a waypoints)"

definition get_route_summary_checked ::
  "settings \<Rightarrow> network \<Rightarrow> (real \<Rightarrow> real \<Rightarrow> real \<Rightarrow> real \<Rightarrow> real) \<Rightarrow> coord list \<Rightarrow> string
     \<Rightarrow> error + route_summary" where
  "get_route_summary_checked s net fl_a waypoints profile =
     try_except
       (if \<not> routing_enabled s then calculate_straight_line_summary_checked fl_a waypoints
        else if truthy_str (OPENROUTE_API_KEY s)
        then get_openroute_summary_checked net fl_a waypoints profile
        else get_osrm_summary_checked net fl_a waypoints profile)
       (calculate_straight_line_summary_checked fl_a waypoints)"

section \<open>Rows of the data model\<close>

text \<open>
  The fields of \<^verbatim>\<open>models.py\<close> that the logistics code reads or writes. A foreign
  key is the primary key of the row it refers to; \<open>order.client\<close> is read only, and is
  kept inside the order as loaded by \<open>select_related\<close>.
\<close>

record Client =
  client_latitude :: "real option"
  client_longitude :: "real option"

record Courier =
  courier_id :: nat
  courier_name :: string
  available :: bool
  vehicle_type :: string
  current_latitude :: "real option"
  current_longitude :: "real option"

record Order =
  order_id :: nat
  client :: Client
  order_courier_id :: "nat option"
  address :: string
  latitude :: "real option"
  longitude :: "real option"
  status :: string
  priority :: string
  estimated_delivery_time :: "real option"
  created_date :: nat

record route_data =
  data_coordinates :: "coord list"
  data_total_distance :: real
  data_estimated_duration_minutes :: int
  data_order_count :: nat
  data_created_at :: string
  data_courier_id :: nat
  data_courier_name :: string

record DeliveryRoute =
  route_id :: nat
  route_courier :: nat
  route_name :: string
  route_status :: string
  route_total_distance :: real
  route_estimated_duration :: real
  route_route_data :: route_data

record RouteOrder =
  ro_route :: nat
  ro_order :: nat
  ro_sequence :: nat

text \<open>The tables, each in the order in which an unordered query returns its rows.\<close>

record db =
  courier_table :: "Courier list"
  order_table :: "Order list"
  delivery_route_table :: "DeliveryRoute list"
  route_order_table :: "RouteOrder list"

text \<open>
  \<open>timezone.now()\<close>: the hour, the weekday (0 is Monday), the date as a day number,
  the instant in minutes, and its renderings by \<open>strftime('%Y%m%d_%H%M')\<close> and
  \<open>isoformat()\<close>.
\<close>

record clock =
  now_hour :: int
  now_weekday :: int
  now_date :: nat
  now_minutes :: real
  now_strftime :: string
  now_isoformat :: string

text \<open>\<open>order.courier\<close>: the courier row the foreign key points to, if any.\<close>

definition order_courier :: "db \<Rightarrow> Order \<Rightarrow> Courier option" where
  "order_courier d order =
     (case order_courier_id order of
        None \<Rightarrow> None
      | Some cid \<Rightarrow> find (\<lambda>c. courier_id c = cid) (courier_table d))"

text \<open>\<open>order.save()\<close>: update the row with the order's primary key, insert if there is none.\<close>

definition save_order :: "Order \<Rightarrow> db \<Rightarrow> db" where
  "save_order order d =
     (if \<exists>r \<in> set (order_table d). order_id r = order_id order
      then d\<lparr>order_table :=
             map (\<lambda>r. if order_id r = order_id order then order else r) (order_table d)\<rparr>
      else d\<lparr>order_table := order_table d @ [order]\<rparr>)"

section \<open>RouteOptimizer\<close>

text \<open>
  \<open>min(xs, key=f)\<close> on a non-empty list \<open>x # xs\<close>: the first element whose key is
  least (a later element replaces the current one only when its key is strictly less).
\<close>

definition min_key :: "('a \<Rightarrow> real) \<Rightarrow> 'a \<Rightarrow> 'a list \<Rightarrow> 'a" where
  "min_key f x xs = foldl (\<lambda>best y. if f y < f best then y else best) x xs"

lemma min_key_in_set: "min_key f x xs \<in> set (x # xs)"
proof -
  have "foldl (\<lambda>best y. if f y < f best then y else best) b xs \<in> insert b (set xs)" for b
    by (induction xs arbitrary: b) (simp, force)
  then show ?thesis by (simp add: min_key_def)
qed

text \<open>
  The loop of lines 127 to 137. \<open>route\<close> is never empty (it starts as \<open>[0]\<close>), and
  every index in \<open>unvisited\<close> and \<open>route\<close> is a position of \<open>locations\<close>.
\<close>

function nearest_neighbor :: "coord list \<Rightarrow> nat list \<Rightarrow> nat list \<Rightarrow> nat list" where
  "nearest_neighbor locations [] route = route"
| "nearest_neighbor locations (u # us) route =
     (let current_idx = last route;
          current = locations ! current_idx;
          nearest_idx = min_key (\<lambda>idx. gc_dist current (locations ! idx)) u us
      in nearest_neighbor locations (remove1 nearest_idx (u # us)) (route @ [nearest_idx]))"
  by pat_completeness auto
termination
proof (relation "measure (\<lambda>(locations, unvisited, route). length unvisited)")
  show "wf (measure (\<lambda>(locations, unvisited, route). length unvisited))"
    by simp
next
  fix locations :: "coord list" and u :: nat and us route x xa xb
  assume "xb = min_key (\<lambda>idx. gc_dist xa (locations ! idx)) u us"
  then have "xb \<in> set (u # us)"
    by (simp only: min_key_in_set)
  then have "length (remove1 xb (u # us)) < length (u # us)"
    by (simp only: length_remove1) simp
  then show "((locations, remove1 xb (u # us), route @ [xb]), (locations, u # us, route))
      \<in> measure (\<lambda>(locations, unvisited, route). length unvisited)"
    by simp
qed

definition profile_map :: "string \<rightharpoonup> string" where
  "profile_map =
     [''car'' \<mapsto> ''driving-car'', ''van'' \<mapsto> ''driving-hgv'',
      ''motorcycle'' \<mapsto> ''driving-car'', ''bike'' \<mapsto> ''cycling-regular'',
      ''bicycle'' \<mapsto> ''cycling-regular'', ''foot'' \<mapsto> ''foot-walking'']"

text \<open>One entry of the list \<open>optimized_orders\<close>.\<close>

record route_entry =
  entry_order :: Order
  entry_sequence :: nat
  entry_location :: coord

text \<open>
  The dictionary \<open>optimize_route\<close> returns. The one returned for an empty order list
  (line 110) has no key \<open>route_coordinates\<close>: that is \<open>None\<close> here. The duration is in minutes.
\<close>

record optimization_result =
  result_route :: "route_entry list"
  result_total_distance :: real
  result_estimated_duration :: real
  result_route_coordinates :: "coord list option"

text \<open>Lines 113 and 114.\<close>

definition start_location :: "Courier \<Rightarrow> coord" where
  "start_location courier =
     (let start_lat = por_default (current_latitude courier) 50.4501;
          start_lon = por_default (current_longitude courier) 30.5234
      in (start_lat, start_lon))"

text \<open>Lines 119 and 120.\<close>

definition order_location :: "coord \<Rightarrow> Order \<Rightarrow> coord" where
  "order_location start order =
     (let lat = por_default (por (latitude order) (client_latitude (client order))) (fst start);
          lon = por_default (por (longitude order) (client_longitude (client order))) (snd start)
      in (lat, lon))"

text \<open>Lines 117 to 121.\<close>

definition route_locations :: "Courier \<Rightarrow> Order list \<Rightarrow> coord list" where
  "route_locations courier orders =
     start_location courier # map (order_location (start_location courier)) orders"

text \<open>Lines 124 to 137: the tour, as positions of \<open>locations\<close>.\<close>

definition tour :: "coord list \<Rightarrow> nat list" where
  "tour locations = nearest_neighbor locations [1 ..< length locations] [0]"

text \<open>
  In the last loop (lines 167 to 173) every \<open>route_idx\<close> is at least 1, so
  \<open>route_idx - 1\<close> is never negative.
\<close>

definition optimize_route ::
  "settings \<Rightarrow> network \<Rightarrow> Courier \<Rightarrow> Order list \<Rightarrow> optimization_result" where
  "optimize_route s net courier orders =
     (if orders = []
      then \<lparr>result_route = [], result_total_distance = 0, result_estimated_duration = 0,
            result_route_coordinates = None\<rparr>
      else
        let locations = route_locations courier orders;
            route_idxs = tour locations;
            profile = (case profile_map (vehicle_type courier) of
                         Some p \<Rightarrow> p | None \<Rightarrow> ''driving-car'');
            route_summary = get_route_summary s net (map (\<lambda>idx. locations ! idx) route_idxs) profile;
            travel_time = duration route_summary;
            service_time = real (length orders * 15);
            total_duration_minutes = travel_time + service_time;
            optimized_orders =
              map (\<lambda>(i, route_idx).
                     \<lparr>entry_order = orders ! (route_idx - 1), entry_sequence = i,
                      entry_location = locations ! route_idx\<rparr>)
                (enumerate 1 (tl route_idxs))
        in \<lparr>result_route = optimized_orders, result_total_distance = distance route_summary,
            result_estimated_duration = total_duration_minutes,
            result_route_coordinates = Some (coordinates route_summary)\<rparr>)"

text \<open>\<open>int(x)\<close> on a float: truncation towards zero.\<close>

definition py_int :: "real \<Rightarrow> int" where
  "py_int x = (if 0 \<le> x then \<lfloor>x\<rfloor> else \<lceil>x\<rceil>)"

text \<open>The primary key the database gives a new route: one more than the largest so far.\<close>

definition next_route_id :: "db \<Rightarrow> nat" where
  "next_route_id d = Suc (foldl max 0 (map route_id (delivery_route_table d)))"

definition create_route_order :: "nat \<Rightarrow> db \<Rightarrow> route_entry \<Rightarrow> db" where
  "create_route_order rid d route_order =
     d\<lparr>route_order_table := route_order_table d @
         [\<lparr>ro_route = rid, ro_order = order_id (entry_order route_order),
           ro_sequence = entry_sequence route_order\<rparr>]\<rparr>"

text \<open>
  Reading \<open>optimization_result['route_coordinates']\<close> (line 193) raises \<open>KeyError\<close> when the
  key is absent; that is before anything is written. The result is the route or the error,
  with the database as the call leaves it.
\<close>

definition create_delivery_route ::
  "settings \<Rightarrow> network \<Rightarrow> clock \<Rightarrow> Courier \<Rightarrow> Order list \<Rightarrow> string option \<Rightarrow> db
     \<Rightarrow> (error + DeliveryRoute) \<times> db" where
  "create_delivery_route s net clk courier orders name d =
     (let optimization_result = optimize_route s net courier orders;
          name' = (if truthy_str name then (case name of Some n \<Rightarrow> n | None \<Rightarrow> [])
                   else ''Route '' @ now_strftime clk @ '' - '' @ courier_name courier)
      in case result_route_coordinates optimization_result of
           None \<Rightarrow> (Inl (KeyError ''route_coordinates''), d)
         | Some coords \<Rightarrow>
             (let serializable_route_data =
                    \<lparr>data_coordinates = coords,
                     data_total_distance = result_total_distance optimization_result,
                     data_estimated_duration_minutes =
                       py_int (result_estimated_duration optimization_result * 60 / 60),
                     data_order_count = length (result_route optimization_result),
                     data_created_at = now_isoformat clk,
                     data_courier_id = courier_id courier,
                     data_courier_name = courier_name courier\<rparr>;
                  new_route =
                    \<lparr>route_id = next_route_id d, route_courier = courier_id courier,
                     route_name = name', route_status = ''planned'',
                     route_total_distance = result_total_distance optimization_result,
                     route_estimated_duration = result_estimated_duration optimization_result,
                     route_route_data = serializable_route_data\<rparr>;
                  d1 = d\<lparr>delivery_route_table := delivery_route_table d @ [new_route]\<rparr>;
                  d2 = foldl (create_route_order (route_id new_route)) d1
                         (result_route optimization_result)
              in (Inr new_route, d2)))"

section \<open>DeliveryTimeCalculator\<close>

definition base_preparation_time :: real where
  "base_preparation_time = 30"

definition vehicle_speeds :: "string \<rightharpoonup> real" where
  "vehicle_speeds = [''bike'' \<mapsto> 15, ''motorcycle'' \<mapsto> 35, ''car'' \<mapsto> 40, ''van'' \<mapsto> 35]"

definition priority_factors :: "string \<rightharpoonup> real" where
  "priority_factors = [''low'' \<mapsto> 1.0, ''normal'' \<mapsto> 1.0, ''high'' \<mapsto> 0.8, ''urgent'' \<mapsto> 0.6]"

text \<open>Nothing in the body of \<open>_get_traffic_factor\<close> can raise; its handler is dead code.\<close>

definition get_traffic_factor :: "real \<Rightarrow> real \<Rightarrow> int \<Rightarrow> int \<Rightarrow> real" where
  "get_traffic_factor lat lon hour day_of_week =
     (if day_of_week < 5 then
        (if (7 \<le> hour \<and> hour \<le> 9) \<or> (17 \<le> hour \<and> hour \<le> 19) then 1.5
         else if 10 \<le> hour \<and> hour \<le> 16 then 1.2
         else 1.0)
      else
        (if 12 \<le> hour \<and> hour \<le> 18 then 1.3 else 1.0))"

text \<open>
  \<open>calculate_delivery_time(order, courier)\<close>, in minutes. The third argument is the
  optional parameter \<open>courier\<close>; without it the order's own courier is taken.
\<close>

definition calculate_delivery_time :: "clock \<Rightarrow> db \<Rightarrow> Order \<Rightarrow> Courier option \<Rightarrow> real" where
  "calculate_delivery_time clk d order courier_arg =
     (case (case courier_arg of Some c \<Rightarrow> Some c | None \<Rightarrow> order_courier d order) of
        None \<Rightarrow> base_preparation_time + 60
      | Some courier \<Rightarrow>
          (let hour = now_hour clk;
               day_of_week = now_weekday clk;
               courier_lat = por_default (current_latitude courier) 50.4501;
               courier_lon = por_default (current_longitude courier) 30.5234;
               order_lat = por_default (por (latitude order) (client_latitude (client order)))
                             courier_lat;
               order_lon = por_default (por (longitude order) (client_longitude (client order)))
                             courier_lon;
               dist = calculate_distance courier_lat courier_lon order_lat order_lon;
               vehicle_speed = (case vehicle_speeds (vehicle_type courier) of
                                  Some v \<Rightarrow> v | None \<Rightarrow> 25);
               base_travel_time = (dist / vehicle_speed) * 60;
               traffic_factor = get_traffic_factor order_lat order_lon hour day_of_week;
               adjusted_travel_time = base_travel_time * traffic_factor;
               priority_factor = (case priority_factors (priority order) of
                                    Some f \<Rightarrow> f | None \<Rightarrow> 1.0);
               final_travel_time = adjusted_travel_time * priority_factor;
               total_time = base_preparation_time + final_travel_time
           in total_time))"

text \<open>Returns the order object as the call leaves it, and the database.\<close>

definition update_delivery_estimates :: "clock \<Rightarrow> db \<Rightarrow> Order \<Rightarrow> Order \<times> db" where
  "update_delivery_estimates clk d order =
     (case order_courier d order of
        None \<Rightarrow> (order, d)
      | Some c \<Rightarrow>
          (let estimated_time = calculate_delivery_time clk d order None;
               order' = order\<lparr>estimated_delivery_time := Some (now_minutes clk + estimated_time)\<rparr>
           in (order', save_order order' d)))"

section \<open>LogisticsManager\<close>

text \<open>
  \<open>GeoCoder.geocode_address\<close>: the coordinates of the best match, or \<open>(None, None)\<close>
  when there is no match or the request fails.
\<close>

definition geocode_address :: "network \<Rightarrow> string \<Rightarrow> real option \<times> real option" where
  "geocode_address net addr =
     (case geocode_reply net addr of
        Some (lat, lon) \<Rightarrow> (Some lat, Some lon)
      | None \<Rightarrow> (None, None))"

text \<open>
  \<open>queryset.first()\<close> on a model without a default ordering orders by primary key: the
  row of least primary key.
\<close>

definition first :: "Courier list \<Rightarrow> Courier option" where
  "first qs =
     (case qs of
        [] \<Rightarrow> None
      | c # cs \<Rightarrow> Some (foldl (\<lambda>best x. if courier_id x < courier_id best then x else best) c cs))"

text \<open>
  The body of the loop of lines 638 to 646. The state is \<open>(best_courier, min_distance)\<close>;
  \<open>None\<close> as the distance is \<open>float('inf')\<close>.
\<close>

definition nearer :: "real \<Rightarrow> real \<Rightarrow> Courier option \<times> real option \<Rightarrow> Courier
    \<Rightarrow> Courier option \<times> real option" where
  "nearer order_lat order_lon st courier =
     (if truthy (current_latitude courier) \<and> truthy (current_longitude courier)
      then
        (let dist = calculate_distance (por_default (current_latitude courier) 0)
                      (por_default (current_longitude courier) 0) order_lat order_lon
         in if (case snd st of None \<Rightarrow> True | Some min_distance \<Rightarrow> dist < min_distance)
            then (Some courier, Some dist)
            else st)
      else st)"

text \<open>
  Lines 619 to 628: the coordinates of the order, geocoded from its address when the
  order and its client give none; a geocoded position is stored on the order. Returns
  \<open>(order_lat, order_lon)\<close>, the order object as these lines leave it, and the database.
\<close>

definition resolve_order_location ::
  "network \<Rightarrow> db \<Rightarrow> Order \<Rightarrow> real option \<times> real option \<times> Order \<times> db" where
  "resolve_order_location net d order =
     (let order_lat = por (latitude order) (client_latitude (client order));
          order_lon = por (longitude order) (client_longitude (client order))
      in if \<not> truthy order_lat \<or> \<not> truthy order_lon
         then
           (let (order_lat, order_lon) = geocode_address net (address order)
            in if truthy order_lat \<and> truthy order_lon
               then (let order' = order\<lparr>latitude := order_lat, longitude := order_lon\<rparr>
                     in (order_lat, order_lon, order', save_order order' d))
               else (order_lat, order_lon, order, d))
         else (order_lat, order_lon, order, d))"

text \<open>Returns the courier, the order object as the call leaves it, and the database.\<close>

definition assign_optimal_courier :: "network \<Rightarrow> db \<Rightarrow> Order \<Rightarrow> Courier option \<times> Order \<times> db" where
  "assign_optimal_courier net d order =
     (let available_couriers = filter available (courier_table d)
      in if available_couriers = [] then (None, order, d)
         else
           (case resolve_order_location net d order of
              (order_lat, order_lon, order1, d1) \<Rightarrow>
                if \<not> truthy order_lat \<or> \<not> truthy order_lon
                then (first available_couriers, order1, d1)
                else
                  (let best_courier =
                         fst (foldl (nearer (por_default order_lat 0) (por_default order_lon 0))
                                (None, None) available_couriers)
                   in (case best_courier of
                         Some c \<Rightarrow> (Some c, order1, d1)
                       | None \<Rightarrow> (first available_couriers, order1, d1)))))"

text \<open>
  The dictionary \<open>grouped\<close>, in insertion order, which is the order in which
  \<open>grouped.items()\<close> yields its entries.
\<close>

type_synonym groups = "(nat \<times> Order list) list"

definition group_append :: "nat \<Rightarrow> Order \<Rightarrow> groups \<Rightarrow> groups" where
  "group_append cid order grouped =
     (if cid \<in> fst ` set grouped
      then map (\<lambda>(k, os). if k = cid then (k, os @ [order]) else (k, os)) grouped
      else grouped @ [(cid, [order])])"

text \<open>The body of the loop of lines 687 to 694; the state is \<open>(grouped, database)\<close>.\<close>

definition group_step :: "network \<Rightarrow> groups \<times> db \<Rightarrow> Order \<Rightarrow> groups \<times> db" where
  "group_step net st order =
     (let (grouped, d) = st;
          (courier, order, d) =
            (case order_courier d order of
               Some c \<Rightarrow> (Some c, order, d)
             | None \<Rightarrow> assign_optimal_courier net d order)
      in case courier of
           Some c \<Rightarrow> (group_append (courier_id c) order grouped, d)
         | None \<Rightarrow> (grouped, d))"

definition group_orders_for_routing :: "network \<Rightarrow> db \<Rightarrow> Order list \<Rightarrow> groups \<times> db" where
  "group_orders_for_routing net d pending = foldl (group_step net) ([], d) pending"

text \<open>The body of the loop of lines 672 to 676.\<close>

definition assign_order :: "clock \<Rightarrow> Courier \<Rightarrow> db \<Rightarrow> Order \<Rightarrow> db" where
  "assign_order clk c d order =
     (let order1 = order\<lparr>order_courier_id := Some (courier_id c), status := ''assigned''\<rparr>;
          (order2, d1) = update_delivery_estimates clk d order1
      in save_order order2 d1)"

text \<open>
  The loop of lines 665 to 679 over the groups. \<open>Courier.objects.get\<close> raises
  \<open>DoesNotExist\<close> when no row matches, and only that exception is caught; any other stops
  the run and reaches the caller.
\<close>

fun route_groups ::
  "settings \<Rightarrow> network \<Rightarrow> clock \<Rightarrow> groups \<Rightarrow> DeliveryRoute list \<Rightarrow> db
     \<Rightarrow> (error + DeliveryRoute list) \<times> db" where
  "route_groups s net clk [] routes d = (Inr routes, d)"
| "route_groups s net clk ((cid, os) # rest) routes d =
     (case find (\<lambda>c. courier_id c = cid \<and> available c) (courier_table d) of
        None \<Rightarrow> route_groups s net clk rest routes d
      | Some c \<Rightarrow>
          (case create_delivery_route s net clk c os None d of
             (Inl e, d1) \<Rightarrow> (Inl e, d1)
           | (Inr r, d1) \<Rightarrow>
               route_groups s net clk rest (routes @ [r]) (foldl (assign_order clk c) d1 os)))"

definition pending_orders :: "db \<Rightarrow> nat \<Rightarrow> Order list" where
  "pending_orders d date =
     filter (\<lambda>order. status order \<in> {''new'', ''assigned''} \<and> created_date order = date)
       (order_table d)"

definition create_optimized_routes_for_day ::
  "settings \<Rightarrow> network \<Rightarrow> clock \<Rightarrow> nat option \<Rightarrow> db \<Rightarrow> (error + DeliveryRoute list) \<times> db" where
  "create_optimized_routes_for_day s net clk date_arg d =
     (let date = (case date_arg of Some dt \<Rightarrow> dt | None \<Rightarrow> now_date clk);
          (grouped, d1) = group_orders_for_routing net d (pending_orders d date)
      in route_groups s net clk grouped [] d1)"

section \<open>Terms of the statements\<close>

text \<open>
  The distance \<open>calculate_delivery_time\<close> computes between the courier and the order
  (lines 308 to 313).
\<close>

definition delivery_distance :: "Courier \<Rightarrow> Order \<Rightarrow> real" where
  "delivery_distance courier order =
     (let courier_lat = por_default (current_latitude courier) 50.4501;
          courier_lon = por_default (current_longitude courier) 30.5234;
          order_lat = por_default (por (latitude order) (client_latitude (client order)))
                        courier_lat;
          order_lon = por_default (por (longitude order) (client_longitude (client order)))
                        courier_lon
      in calculate_distance courier_lat courier_lon order_lat order_lon)"

text \<open>
  The distance of two points can be computed: the value of \<open>a\<close> lies between 0 and 1, so
  that neither square root of line 90 raises.
\<close>

definition computable :: "(real \<Rightarrow> real \<Rightarrow> real \<Rightarrow> real \<Rightarrow> real) \<Rightarrow> coord \<Rightarrow> coord \<Rightarrow> bool" where
  "computable fl_a p q =
     (0 \<le> fl_a (fst p) (snd p) (fst q) (snd q) \<and> fl_a (fst p) (snd p) (fst q) (snd q) \<le> 1)"

text \<open>The reply to the geometry request of the provider the settings select.\<close>

definition selected_route_reply ::
  "settings \<Rightarrow> network \<Rightarrow> coord list \<Rightarrow> string \<Rightarrow> geometry_reply" where
  "selected_route_reply s net waypoints profile =
     (if truthy_str (OPENROUTE_API_KEY s)
      then openroute_route_reply net (lon_lat waypoints) profile
      else osrm_route_reply net (lon_lat waypoints) (translate_profile_for_osrm profile))"

text \<open>
  The nearest-neighbour condition on position \<open>k\<close> of a tour \<open>r\<close> over the locations
  \<open>locs\<close>, with \<open>U\<close> the positions of the order locations: the stop chosen at \<open>k\<close> is
  not among the \<open>k\<close> positions visited before; no other unvisited location is closer to
  the one visited just before; and among the unvisited locations at the same distance it
  comes first in the input.
\<close>

definition nearest_choice :: "coord list \<Rightarrow> nat set \<Rightarrow> nat list \<Rightarrow> nat \<Rightarrow> bool" where
  "nearest_choice locs U r k \<longleftrightarrow>
     r ! k \<in> U - set (take k r) \<and>
     (\<forall>j \<in> U - set (take k r).
        gc_dist (locs ! (r ! (k - 1))) (locs ! (r ! k)) \<le> gc_dist (locs ! (r ! (k - 1))) (locs ! j)
        \<and> (gc_dist (locs ! (r ! (k - 1))) (locs ! j)
             = gc_dist (locs ! (r ! (k - 1))) (locs ! (r ! k)) \<longrightarrow> r ! k \<le> j))"

text \<open>An order object that differs from another at most in its coordinates.\<close>

definition relocated :: "Order \<Rightarrow> Order \<Rightarrow> bool" where
  "relocated x y \<longleftrightarrow> (\<exists>la lo. y = x\<lparr>latitude := la, longitude := lo\<rparr>)"

text \<open>The couriers of a list that the loop of \<open>assign_optimal_courier\<close> considers.\<close>

definition positioned :: "Courier list \<Rightarrow> Courier list" where
  "positioned cs =
     filter (\<lambda>c. truthy (current_latitude c) \<and> truthy (current_longitude c)) cs"

definition courier_distance :: "real \<Rightarrow> real \<Rightarrow> Courier \<Rightarrow> real" where
  "courier_distance la lo c =
     calculate_distance (por_default (current_latitude c) 0) (por_default (current_longitude c) 0)
       la lo"

text \<open>
  The date a run works on (lines 652 and 653), the courier that
  \<open>Courier.objects.get(id=k, available=True)\<close> finds, the groups of a run whose courier
  is found, and the number of routes a run returns (0 when it raises).
\<close>

definition run_date :: "clock \<Rightarrow> nat option \<Rightarrow> nat" where
  "run_date clk date_arg = (case date_arg of Some dt \<Rightarrow> dt | None \<Rightarrow> now_date clk)"

definition available_courier :: "db \<Rightarrow> nat \<Rightarrow> Courier option" where
  "available_courier d k = find (\<lambda>c. courier_id c = k \<and> available c) (courier_table d)"

definition routes_created :: "(error + DeliveryRoute list) \<times> db \<Rightarrow> nat" where
  "routes_created r = (case fst r of Inl e \<Rightarrow> 0 | Inr rs \<Rightarrow> length rs)"

definition routed_groups :: "network \<Rightarrow> db \<Rightarrow> nat \<Rightarrow> groups" where
  "routed_groups net d date =
     filter (\<lambda>(k, os). available_courier d k \<noteq> None)
       (fst (group_orders_for_routing net d (pending_orders d date)))"

text \<open>
  The tables of the delivery-time estimate as the specification words them. Outside the
  four vehicle categories the speed is 25; outside the four priorities the code's factor
  is 1.
\<close>

definition spec_vehicle_speed :: "string \<Rightarrow> real" where
  "spec_vehicle_speed v =
     (if v = ''bike'' then 15 else if v = ''motorcycle'' then 35 else if v = ''car'' then 40
      else if v = ''van'' then 35 else 25)"

definition spec_traffic_factor :: "int \<Rightarrow> int \<Rightarrow> real" where
  "spec_traffic_factor hour day =
     (if day < 5 then
        (if hour \<in> {7..9} \<union> {17..19} then 1.5 else if hour \<in> {10..16} then 1.2 else 1.0)
      else (if hour \<in> {12..18} then 1.3 else 1.0))"

definition spec_priority_factor :: "string \<Rightarrow> real" where
  "spec_priority_factor p =
     (if p = ''low'' then 1.0 else if p = ''normal'' then 1.0 else if p = ''high'' then 0.8
      else if p = ''urgent'' then 0.6 else 1.0)"

subsection \<open>Concrete scenarios\<close>

text \<open>
  The inputs at which the statements below are evaluated: settings, networks, couriers,
  orders and databases. Coordinates are (latitude, longitude) in degrees; points on one
  meridian are used where two distances have to be compared.
\<close>

definition demo_clock :: clock where
  "demo_clock = \<lparr>now_hour = 8, now_weekday = 0, now_date = 0, now_minutes = 0,
     now_strftime = ''20240101_0800'', now_isoformat = ''2024-01-01T08:00:00''\<rparr>"

definition car_courier :: Courier where
  "car_courier = \<lparr>courier_id = 1, courier_name = ''A'', available = True,
     vehicle_type = ''car'', current_latitude = Some 50, current_longitude = Some 30\<rparr>"

definition no_client :: Client where
  "no_client = \<lparr>client_latitude = None, client_longitude = None\<rparr>"

definition urgent_order :: Order where
  "urgent_order = \<lparr>order_id = 1, client = no_client, order_courier_id = None,
     address = ''x'', latitude = Some (50 + 1800 / (6371 * pi)), longitude = Some 30,
     status = ''new'', priority = ''urgent'', estimated_delivery_time = None,
     created_date = 0\<rparr>"

definition empty_db :: db where
  "empty_db = \<lparr>courier_table = [], order_table = [], delivery_route_table = [],
     route_order_table = []\<rparr>"

definition key_settings :: settings where
  "key_settings = \<lparr>EXTERNAL_ROUTING_ENABLED = None, OPENROUTE_API_KEY = Some ''key''\<rparr>"

definition no_key_settings :: settings where
  "no_key_settings = \<lparr>EXTERNAL_ROUTING_ENABLED = None, OPENROUTE_API_KEY = None\<rparr>"

definition disabled_settings :: settings where
  "disabled_settings = \<lparr>EXTERNAL_ROUTING_ENABLED = Some False, OPENROUTE_API_KEY = None\<rparr>"

definition geometry_down_net :: network where
  "geometry_down_net =
     \<lparr>openroute_summary_reply = (\<lambda>cs p. SummaryRoute 5000 600),
      openroute_route_reply = (\<lambda>cs p. GeometryError),
      osrm_summary_reply = (\<lambda>cs p. SummaryRoute 1000 60),
      osrm_route_reply = (\<lambda>cs p. GeometryError),
      geocode_reply = (\<lambda>a. None)\<rparr>"

definition negative_net :: network where
  "negative_net =
     \<lparr>openroute_summary_reply = (\<lambda>cs p. SummaryRoute (- 1000) 60),
      openroute_route_reply = (\<lambda>cs p. GeometryError),
      osrm_summary_reply = (\<lambda>cs p. SummaryRoute (- 1000) 60),
      osrm_route_reply = (\<lambda>cs p. GeometryError),
      geocode_reply = (\<lambda>a. None)\<rparr>"

definition depot_twice :: "coord list" where
  "depot_twice = [(50.4501, 30.5234), (50.4501, 30.5234)]"

definition north_leg :: "coord list" where
  "north_leg = [(50, 30), (50.01, 30)]"

definition one_waypoint :: "coord list" where
  "one_waypoint = [(50.4501, 30.5234)]"

definition greenwich_courier :: Courier where
  "greenwich_courier = \<lparr>courier_id = 2, courier_name = ''B'', available = True,
     vehicle_type = ''bike'', current_latitude = Some 51.5, current_longitude = Some 0\<rparr>"

definition kyiv_client :: Client where
  "kyiv_client = \<lparr>client_latitude = Some 50.4, client_longitude = Some 30.6\<rparr>"

definition greenwich_order :: Order where
  "greenwich_order = \<lparr>order_id = 2, client = kyiv_client, order_courier_id = None,
     address = ''y'', latitude = Some 51.6, longitude = Some 0,
     status = ''new'', priority = ''normal'', estimated_delivery_time = None,
     created_date = 0\<rparr>"

definition far_order :: Order where
  "far_order = \<lparr>order_id = 3, client = no_client, order_courier_id = None,
     address = ''far'', latitude = Some 50.03, longitude = Some 30,
     status = ''new'', priority = ''normal'', estimated_delivery_time = None,
     created_date = 0\<rparr>"

definition near_order :: Order where
  "near_order = \<lparr>order_id = 4, client = no_client, order_courier_id = None,
     address = ''near'', latitude = Some 50.01, longitude = Some 30,
     status = ''new'', priority = ''normal'', estimated_delivery_time = None,
     created_date = 0\<rparr>"

definition equator_courier :: Courier where
  "equator_courier = \<lparr>courier_id = 1, courier_name = ''E'', available = True,
     vehicle_type = ''car'', current_latitude = Some 0, current_longitude = Some 30\<rparr>"

definition south_courier :: Courier where
  "south_courier = \<lparr>courier_id = 2, courier_name = ''S'', available = True,
     vehicle_type = ''car'', current_latitude = Some (- 1), current_longitude = Some 30\<rparr>"

definition equator_order :: Order where
  "equator_order = \<lparr>order_id = 5, client = no_client, order_courier_id = None,
     address = ''z'', latitude = Some 0.5, longitude = Some 30,
     status = ''new'', priority = ''normal'', estimated_delivery_time = None,
     created_date = 0\<rparr>"

definition equator_db :: db where
  "equator_db = \<lparr>courier_table = [equator_courier, south_courier],
     order_table = [equator_order], delivery_route_table = [], route_order_table = []\<rparr>"

definition day_db :: db where
  "day_db = \<lparr>courier_table = [car_courier], order_table = [near_order],
     delivery_route_table = [], route_order_table = []\<rparr>"

definition off_courier :: Courier where
  "off_courier = \<lparr>courier_id = 7, courier_name = ''O'', available = False,
     vehicle_type = ''van'', current_latitude = Some 50.2, current_longitude = Some 30.2\<rparr>"

definition held_order :: Order where
  "held_order = \<lparr>order_id = 9, client = no_client, order_courier_id = Some 7,
     address = ''h'', latitude = Some 50.1, longitude = Some 30.1,
     status = ''assigned'', priority = ''normal'', estimated_delivery_time = Some 5,
     created_date = 0\<rparr>"

definition held_db :: db where
  "held_db = \<lparr>courier_table = [off_courier, car_courier],
     order_table = [held_order, urgent_order],
     delivery_route_table = [], route_order_table = []\<rparr>"

definition day_db_after :: db where
  "day_db_after =
     snd (create_optimized_routes_for_day disabled_settings geometry_down_net demo_clock None
            day_db)"

section \<open>Properties of the distance\<close>

lemma sin_sq_half: "(sin (x / 2))\<^sup>2 = (1 - cos x) / (2::real)"
  using cos_double_sin [of "x / 2"] by simp

lemma cos_times_cos: "cos x * cos y = (cos (x - y) + cos (x + y)) / (2::real)"
  by (simp add: cos_add cos_diff)

lemma haversine_a_alt:
  "haversine_a lat1 lon1 lat2 lon2 =
     (1 - (1 - (sin (radians (lon2 - lon1) / 2))\<^sup>2) * cos (radians lat2 - radians lat1)
        + (sin (radians (lon2 - lon1) / 2))\<^sup>2 * cos (radians lat2 + radians lat1)) / 2"
proof -
  have r: "radians (lat2 - lat1) = radians lat2 - radians lat1"
    by (simp add: radians_def algebra_simps diff_divide_distrib)
  show ?thesis
    unfolding haversine_a_def Let_def r sin_sq_half [of "radians lat2 - radians lat1"]
      cos_times_cos [of "radians lat1" "radians lat2"]
    by (simp add: cos_diff cos_add field_simps)
qed

lemma haversine_a_range:
  "0 \<le> haversine_a lat1 lon1 lat2 lon2 \<and> haversine_a lat1 lon1 lat2 lon2 \<le> 1"
proof -
  define s where "s = (sin (radians (lon2 - lon1) / 2))\<^sup>2"
  define c1 where "c1 = cos (radians lat2 - radians lat1)"
  define c2 where "c2 = cos (radians lat2 + radians lat1)"
  have a: "haversine_a lat1 lon1 lat2 lon2 = (1 - (1 - s) * c1 + s * c2) / 2"
    unfolding s_def c1_def c2_def by (rule haversine_a_alt)
  have s0: "0 \<le> s" unfolding s_def by simp
  have s1: "s \<le> 1"
    unfolding s_def by (simp add: power2_eq_square abs_square_le_1 flip: power2_eq_square)
  have c1b: "- 1 \<le> c1" "c1 \<le> 1" unfolding c1_def by simp_all
  have c2b: "- 1 \<le> c2" "c2 \<le> 1" unfolding c2_def by simp_all
  have p1: "(1 - s) * c1 \<le> (1 - s) * 1"
    using s1 c1b by (intro mult_left_mono) simp_all
  have p2: "(1 - s) * (- 1) \<le> (1 - s) * c1"
    using s1 c1b by (intro mult_left_mono) simp_all
  have p3: "s * c2 \<le> s * 1"
    using s0 c2b by (intro mult_left_mono) simp_all
  have p4: "s * (- 1) \<le> s * c2"
    using s0 c2b by (intro mult_left_mono) simp_all
  from p1 p2 p3 p4 show ?thesis unfolding a by simp
qed

lemma atan2_nonneg: "0 \<le> y \<Longrightarrow> 0 \<le> x \<Longrightarrow> 0 \<le> atan2 y x"
  by (simp add: atan2_def)

lemma calculate_distance_nonneg: "0 \<le> calculate_distance lat1 lon1 lat2 lon2"
proof -
  have "0 \<le> atan2 (sqrt (haversine_a lat1 lon1 lat2 lon2))
               (sqrt (1 - haversine_a lat1 lon1 lat2 lon2))"
    using haversine_a_range [of lat1 lon1 lat2 lon2] by (intro atan2_nonneg) simp_all
  then show ?thesis by (simp add: calculate_distance_def Let_def)
qed

lemma calculate_distance_same [simp]: "calculate_distance x y x y = 0"
  by (simp add: calculate_distance_def haversine_a_def atan2_def radians_def)

lemma gc_dist_nonneg: "0 \<le> gc_dist p q"
  by (simp add: gc_dist_def calculate_distance_nonneg)

lemma gc_dist_same [simp]: "gc_dist p p = 0"
  by (simp add: gc_dist_def)

lemma straight_line_distance_sum:
  "distance (calculate_straight_line_summary w) = (\<Sum>i<length w - 1. gc_dist (w ! i) (w ! (i + 1)))"
proof -
  have "foldl (\<lambda>total i. total + f i) a [0..<n] = a + (\<Sum>i<n. f i)" for f :: "nat \<Rightarrow> real" and a n
    by (induction n arbitrary: a) simp_all
  then show ?thesis by (simp add: calculate_straight_line_summary_def Let_def)
qed

lemma straight_line_nonneg:
  "0 \<le> distance (calculate_straight_line_summary w)" "0 \<le> duration (calculate_straight_line_summary w)"
proof -
  show d: "0 \<le> distance (calculate_straight_line_summary w)"
    unfolding straight_line_distance_sum by (intro sum_nonneg gc_dist_nonneg)
  have "duration (calculate_straight_line_summary w) = distance (calculate_straight_line_summary w) / 25 * 60"
    by (simp add: calculate_straight_line_summary_def Let_def)
  with d show "0 \<le> duration (calculate_straight_line_summary w)" by simp
qed

lemma summary_fallback:
  assumes "\<not> routing_enabled s \<or> selected_summary_reply s net w p = SummaryError
           \<or> selected_summary_reply s net w p = SummaryEmpty"
  shows "get_route_summary s net w p = calculate_straight_line_summary w"
  using assms
  by (auto simp: get_route_summary_def selected_summary_reply_def get_openroute_summary_def
      get_osrm_summary_def Let_def split: if_splits)

lemma summary_provider:
  assumes "routing_enabled s" "selected_summary_reply s net w p = SummaryRoute d t"
  shows "distance (get_route_summary s net w p) = d / 1000"
    and "duration (get_route_summary s net w p) = t / 60"
  using assms
  by (auto simp: get_route_summary_def selected_summary_reply_def get_openroute_summary_def
      get_osrm_summary_def Let_def split: if_splits)

lemma same_meridian_distance:
  assumes "0 \<le> radians (q - p)" "radians (q - p) < pi"
  shows "calculate_distance p lon q lon = 6371 * radians (q - p)"
proof -
  define x where "x = radians (q - p) / 2"
  have x: "0 \<le> x" "x < pi / 2" using assms by (simp_all add: x_def)
  have a: "haversine_a p lon q lon = (sin x)\<^sup>2"
    by (simp add: haversine_a_def Let_def x_def radians_def)
  have s: "sqrt ((sin x)\<^sup>2) = sin x"
    using x sin_ge_zero [of x] by simp
  have c0: "0 < cos x" using x by (intro cos_gt_zero_pi) simp_all
  have "1 - (sin x)\<^sup>2 = (cos x)\<^sup>2"
    by (simp add: cos_squared_eq)
  then have c: "sqrt (1 - (sin x)\<^sup>2) = cos x" using c0 by simp
  have "atan2 (sin x) (cos x) = arctan (tan x)"
    using c0 by (simp add: atan2_def tan_def)
  also have "\<dots> = x" using x by (intro arctan_tan) simp_all
  finally have t: "atan2 (sin x) (cos x) = x" .
  show ?thesis
    unfolding calculate_distance_def Let_def a s c t by (simp add: x_def)
qed

lemma north_distance:
  assumes "0 \<le> x" "x \<le> 1"
  shows "gc_dist (50, 30) (50 + x, 30) = 6371 * radians x"
proof -
  have "radians x \<le> radians 1" using assms by (simp add: radians_def)
  also have "\<dots> < pi" by (simp add: radians_def)
  finally have "radians (50 + x - 50) < pi" by simp
  moreover have "0 \<le> radians (50 + x - 50)" using assms by (simp add: radians_def)
  ultimately show ?thesis
    using same_meridian_distance [where p = 50 and q = "50 + x" and lon = 30]
    by (simp add: gc_dist_def)
qed

section \<open>The road router\<close>

lemma summary_coordinates:
  assumes "routing_enabled s" "selected_summary_reply s net w p = SummaryRoute d t"
  shows "coordinates (get_route_summary s net w p) =
     (case selected_route_reply s net w p of
        GeometryLineString cs \<Rightarrow> map (\<lambda>c. (snd c, fst c)) cs | _ \<Rightarrow> w)"
  using assms
  by (auto simp: get_route_summary_def selected_summary_reply_def selected_route_reply_def
      get_openroute_summary_def get_osrm_summary_def get_openroute_route_def get_osrm_route_def
      Let_def split: if_splits geometry_reply.splits)

lemma summary_nonneg:
  assumes "\<forall>d t. routing_enabled s \<and> selected_summary_reply s net w p = SummaryRoute d t
             \<longrightarrow> 0 \<le> d \<and> 0 \<le> t"
  shows "0 \<le> distance (get_route_summary s net w p) \<and> 0 \<le> duration (get_route_summary s net w p)"
proof (cases "routing_enabled s")
  case False
  then show ?thesis by (simp add: summary_fallback straight_line_nonneg)
next
  case True
  show ?thesis
  proof (cases "selected_summary_reply s net w p")
    case SummaryError
    then show ?thesis by (simp add: summary_fallback straight_line_nonneg)
  next
    case SummaryEmpty
    then show ?thesis by (simp add: summary_fallback straight_line_nonneg)
  next
    case (SummaryRoute d t)
    with True assms have "0 \<le> d" "0 \<le> t" by auto
    with summary_provider [OF True SummaryRoute] show ?thesis by simp
  qed
qed

lemma depot_twice_straight:
  "calculate_straight_line_summary depot_twice =
     \<lparr>distance = 0, duration = 0, coordinates = depot_twice\<rparr>"
  by (simp add: calculate_straight_line_summary_def depot_twice_def Let_def)

subsection \<open>The summary with the error branch\<close>

lemma try_except_same: "try_except x x = x"
  by (cases x) (simp_all add: try_except_def)

lemma try_except_Inl: "try_except (Inl e) h = h"
  by (simp add: try_except_def)

lemma try_except_Inr: "try_except (Inr v) h = Inr v"
  by (simp add: try_except_def)

lemma gc_dist_checked_Inr:
  "gc_dist_checked fl_a p q = Inr v \<Longrightarrow> computable fl_a p q \<and> 0 \<le> v"
  by (auto simp: gc_dist_checked_def calculate_distance_checked_def computable_def Let_def
      atan2_nonneg split: if_splits)

lemma gc_dist_checked_computable:
  "computable fl_a p q \<Longrightarrow> \<exists>v. gc_dist_checked fl_a p q = Inr v"
  by (simp add: gc_dist_checked_def calculate_distance_checked_def computable_def Let_def)

lemma gc_dist_checked_exact: "gc_dist_checked haversine_a p q = Inr (gc_dist p q)"
  using haversine_a_range [of "fst p" "snd p" "fst q" "snd q"]
  by (simp add: gc_dist_checked_def calculate_distance_checked_def gc_dist_def
      calculate_distance_def Let_def)

lemma add_distance_Inr:
  "gc_dist_checked fl_a (w ! i) (w ! (i + 1)) = Inr v \<Longrightarrow>
   add_distance fl_a w (Inr t) i = Inr (t + v)"
  by (simp add: add_distance_def)

lemma add_distance_fold_Inr:
  "foldl (add_distance fl_a w) (Inr a) [0..<n] = Inr b \<Longrightarrow>
   \<exists>ds. length ds = n
      \<and> (\<forall>i<n. gc_dist_checked fl_a (w ! i) (w ! (i + 1)) = Inr (ds ! i))
      \<and> b = a + sum_list ds"
proof (induction n arbitrary: b)
  case 0
  then show ?case by simp
next
  case (Suc n)
  from Suc.prems
  have step: "add_distance fl_a w (foldl (add_distance fl_a w) (Inr a) [0..<n]) n = Inr b"
    by simp
  then obtain t where t: "foldl (add_distance fl_a w) (Inr a) [0..<n] = Inr t"
    by (cases "foldl (add_distance fl_a w) (Inr a) [0..<n]") (simp_all add: add_distance_def)
  with step obtain v where v: "gc_dist_checked fl_a (w ! n) (w ! (n + 1)) = Inr v"
    and b: "b = t + v"
    by (cases "gc_dist_checked fl_a (w ! n) (w ! (n + 1))") (simp_all add: add_distance_def)
  from Suc.IH [OF t] obtain ds where ds: "length ds = n"
    "\<forall>i<n. gc_dist_checked fl_a (w ! i) (w ! (i + 1)) = Inr (ds ! i)" "t = a + sum_list ds"
    by blast
  have "length (ds @ [v]) = Suc n" using ds(1) by simp
  moreover have "\<forall>i<Suc n. gc_dist_checked fl_a (w ! i) (w ! (i + 1)) = Inr ((ds @ [v]) ! i)"
    using ds(1,2) v by (simp add: nth_append less_Suc_eq)
  moreover have "b = a + sum_list (ds @ [v])" using b ds(3) by simp
  ultimately show ?case by blast
qed

lemma add_distance_fold_returns:
  "\<forall>i<n. computable fl_a (w ! i) (w ! (i + 1)) \<Longrightarrow>
   \<exists>b. foldl (add_distance fl_a w) (Inr a) [0..<n] = Inr b"
proof (induction n)
  case 0
  then show ?case by simp
next
  case (Suc n)
  then obtain t where t: "foldl (add_distance fl_a w) (Inr a) [0..<n] = Inr t" by auto
  from Suc.prems have "computable fl_a (w ! n) (w ! (n + 1))" by simp
  then obtain v where "gc_dist_checked fl_a (w ! n) (w ! (n + 1)) = Inr v"
    using gc_dist_checked_computable by blast
  with t show ?case by (simp add: add_distance_Inr)
qed

lemma add_distance_fold_exact:
  "foldl (add_distance haversine_a w) (Inr a) [0..<n] =
     Inr (foldl (\<lambda>total i. total + gc_dist (w ! i) (w ! (i + 1))) a [0..<n])"
  by (induction n) (simp_all add: add_distance_Inr gc_dist_checked_exact)

lemma straight_line_checked_exact:
  "calculate_straight_line_summary_checked haversine_a w = Inr (calculate_straight_line_summary w)"
  by (simp add: calculate_straight_line_summary_checked_def calculate_straight_line_summary_def
      add_distance_fold_exact Let_def)

lemma straight_line_checked_Inr:
  assumes "calculate_straight_line_summary_checked fl_a w = Inr r"
  shows "\<exists>ds. length ds = length w - 1
      \<and> (\<forall>i<length w - 1. gc_dist_checked fl_a (w ! i) (w ! (i + 1)) = Inr (ds ! i))
      \<and> distance r = sum_list ds"
    and "duration r = distance r / 25 * 60"
    and "coordinates r = w"
    and "0 \<le> distance r"
    and "0 \<le> duration r"
proof -
  from assms obtain b where
    b: "foldl (add_distance fl_a w) (Inr 0) [0 ..< length w - 1] = Inr b"
    and r: "r = \<lparr>distance = b, duration = b / 25 * 60, coordinates = w\<rparr>"
    by (cases "foldl (add_distance fl_a w) (Inr 0) [0 ..< length w - 1]")
      (auto simp: calculate_straight_line_summary_checked_def Let_def)
  from add_distance_fold_Inr [OF b] obtain ds where ds: "length ds = length w - 1"
    "\<forall>i<length w - 1. gc_dist_checked fl_a (w ! i) (w ! (i + 1)) = Inr (ds ! i)"
    "b = sum_list ds"
    by auto
  with r show "\<exists>ds. length ds = length w - 1
      \<and> (\<forall>i<length w - 1. gc_dist_checked fl_a (w ! i) (w ! (i + 1)) = Inr (ds ! i))
      \<and> distance r = sum_list ds"
    by auto
  from r show "duration r = distance r / 25 * 60" "coordinates r = w" by simp_all
  have "0 \<le> x" if "x \<in> set ds" for x
  proof -
    from that obtain i where "i < length ds" "ds ! i = x" by (auto simp: in_set_conv_nth)
    with ds(1,2) have "gc_dist_checked fl_a (w ! i) (w ! (i + 1)) = Inr x" by auto
    then show ?thesis using gc_dist_checked_Inr by blast
  qed
  then have "0 \<le> sum_list ds" by (rule sum_list_nonneg)
  with ds(3) r show "0 \<le> distance r" "0 \<le> duration r" by simp_all
qed

lemma straight_line_checked_returns:
  assumes "\<forall>i<length w - 1. computable fl_a (w ! i) (w ! (i + 1))"
  shows "\<exists>r. calculate_straight_line_summary_checked fl_a w = Inr r"
proof -
  from add_distance_fold_returns [OF assms, of 0] obtain b where
    "foldl (add_distance fl_a w) (Inr 0) [0 ..< length w - 1] = Inr b" by blast
  then show ?thesis by (simp add: calculate_straight_line_summary_checked_def Let_def)
qed

lemma summary_checked_fallback:
  assumes "\<not> routing_enabled s \<or> selected_summary_reply s net w p = SummaryError
           \<or> selected_summary_reply s net w p = SummaryEmpty"
  shows "get_route_summary_checked s net fl_a w p = calculate_straight_line_summary_checked fl_a w"
  using assms
  by (auto simp: get_route_summary_checked_def selected_summary_reply_def
      get_openroute_summary_checked_def get_osrm_summary_checked_def Let_def
      try_except_same try_except_Inl split: if_splits)

lemma summary_checked_provider:
  assumes "routing_enabled s" "selected_summary_reply s net w p = SummaryRoute d t"
  shows "get_route_summary_checked s net fl_a w p =
     Inr \<lparr>distance = d / 1000, duration = t / 60,
          coordinates = (case selected_route_reply s net w p of
             GeometryLineString cs \<Rightarrow> map (\<lambda>c. (snd c, fst c)) cs | _ \<Rightarrow> w)\<rparr>"
  using assms
  by (auto simp: get_route_summary_checked_def selected_summary_reply_def selected_route_reply_def
      get_openroute_summary_checked_def get_osrm_summary_checked_def get_openroute_route_def
      get_osrm_route_def Let_def try_except_Inr split: if_splits geometry_reply.splits)

lemma summary_checked_exact:
  "get_route_summary_checked s net haversine_a w p = Inr (get_route_summary s net w p)"
  by (simp add: get_route_summary_checked_def get_route_summary_def
      get_openroute_summary_checked_def get_osrm_summary_checked_def
      get_openroute_summary_def get_osrm_summary_def straight_line_checked_exact
      try_except_Inr try_except_Inl Let_def split: summary_reply.splits)

lemma summary_checked_nonneg:
  assumes "get_route_summary_checked s net fl_a w p = Inr r"
    and "\<forall>d t. routing_enabled s \<and> selected_summary_reply s net w p = SummaryRoute d t
             \<longrightarrow> 0 \<le> d \<and> 0 \<le> t"
  shows "0 \<le> distance r \<and> 0 \<le> duration r"
proof (cases "routing_enabled s \<and> (\<exists>d t. selected_summary_reply s net w p = SummaryRoute d t)")
  case True
  then obtain d t where e: "routing_enabled s"
    and rt: "selected_summary_reply s net w p = SummaryRoute d t" by blast
  with assms(2) have "0 \<le> d" "0 \<le> t" by auto
  with summary_checked_provider [OF e rt, of fl_a] assms(1) show ?thesis by auto
next
  case False
  then have "\<not> routing_enabled s \<or> selected_summary_reply s net w p = SummaryError
           \<or> selected_summary_reply s net w p = SummaryEmpty"
    by (cases "selected_summary_reply s net w p") auto
  from summary_checked_fallback [OF this, of fl_a] assms(1)
  have "calculate_straight_line_summary_checked fl_a w = Inr r" by simp
  from straight_line_checked_Inr(4,5) [OF this] show ?thesis by simp
qed

lemma summary_checked_returns:
  assumes "\<forall>i<length w - 1. computable fl_a (w ! i) (w ! (i + 1))"
  shows "\<exists>r. get_route_summary_checked s net fl_a w p = Inr r"
proof (cases "routing_enabled s \<and> (\<exists>d t. selected_summary_reply s net w p = SummaryRoute d t)")
  case True
  then show ?thesis using summary_checked_provider by blast
next
  case False
  then have "\<not> routing_enabled s \<or> selected_summary_reply s net w p = SummaryError
           \<or> selected_summary_reply s net w p = SummaryEmpty"
    by (cases "selected_summary_reply s net w p") auto
  from summary_checked_fallback [OF this, of fl_a] straight_line_checked_returns [OF assms]
  show ?thesis by simp
qed

lemma north_leg_straight:
  "calculate_straight_line_summary_checked haversine_a north_leg =
     Inr \<lparr>distance = 6371 * radians (1 / 100), duration = 6371 * radians (1 / 100) / 25 * 60,
          coordinates = north_leg\<rparr>"
proof -
  have "gc_dist (50, 30) (50 + 1 / 100, 30) = 6371 * radians (1 / 100)"
    by (rule north_distance) simp_all
  then have "gc_dist (50, 30) (50.01, 30) = 6371 * radians (1 / 100)" by simp
  then show ?thesis
    by (simp add: straight_line_checked_exact calculate_straight_line_summary_def north_leg_def
        Let_def)
qed

lemma add_distance_fold_Inl: "foldl (add_distance fl_a w) (Inl e) xs = Inl e"
  by (induction xs) (simp_all add: add_distance_def)

lemma summary_checked_raises:
  assumes "2 \<le> length w"
    and "1 < fl_a (fst (w ! 0)) (snd (w ! 0)) (fst (w ! 1)) (snd (w ! 1))"
    and "\<not> routing_enabled s \<or> selected_summary_reply s net w p = SummaryError
           \<or> selected_summary_reply s net w p = SummaryEmpty"
  shows "get_route_summary_checked s net fl_a w p = Inl ValueError"
proof -
  from assms(2) have "gc_dist_checked fl_a (w ! 0) (w ! (0 + 1)) = Inl ValueError"
    by (simp add: gc_dist_checked_def calculate_distance_checked_def Let_def)
  then have "add_distance fl_a w (Inr 0) 0 = Inl ValueError"
    by (simp add: add_distance_def)
  moreover from assms(1) have "[0 ..< length w - 1] = 0 # [1 ..< length w - 1]"
    by (simp add: upt_rec)
  ultimately have "foldl (add_distance fl_a w) (Inr 0) [0 ..< length w - 1] = Inl ValueError"
    by (simp add: add_distance_fold_Inl)
  then have "calculate_straight_line_summary_checked fl_a w = Inl ValueError"
    by (simp add: calculate_straight_line_summary_checked_def)
  with summary_checked_fallback [OF assms(3), of fl_a] show ?thesis by simp
qed

text \<open>
  Claim C1, as amended. When external routing is disabled, or the metrics request to the
  selected provider fails or yields no route, and the straight-line computation completes,
  \<open>get_route_summary\<close> returns its result: the distance is the sum of the great-circle
  distances of consecutive waypoints, the duration is \<open>distance / 25 * 60\<close> minutes, the
  coordinates are the waypoints themselves, and both figures are non-negative. When the
  metrics request yields a route, the operation returns, with the provider's figures divided
  by 1000 and by 60, whatever the later geometry request does; a geometry request that fails
  only makes the coordinates the input waypoints. Every result that is returned has
  non-negative figures whenever the provider's are. The operation returns whenever the
  distance of every two consecutive waypoints can be computed.
\<close>

theorem route_summary_degrades:
  "(calculate_straight_line_summary_checked fl_a w = Inr r
      \<and> (\<not> routing_enabled s \<or> selected_summary_reply s net w p = SummaryError
          \<or> selected_summary_reply s net w p = SummaryEmpty)
    \<longrightarrow> get_route_summary_checked s net fl_a w p = Inr r)
   \<and> (calculate_straight_line_summary_checked fl_a w = Inr r
    \<longrightarrow> (\<exists>ds. length ds = length w - 1
          \<and> (\<forall>i<length w - 1. gc_dist_checked fl_a (w ! i) (w ! (i + 1)) = Inr (ds ! i))
          \<and> distance r = sum_list ds)
       \<and> duration r = distance r / 25 * 60
       \<and> coordinates r = w
       \<and> 0 \<le> distance r
       \<and> 0 \<le> duration r)
   \<and> (routing_enabled s \<and> selected_summary_reply s net w p = SummaryRoute d t
    \<longrightarrow> get_route_summary_checked s net fl_a w p =
          Inr \<lparr>distance = d / 1000, duration = t / 60,
               coordinates = (case selected_route_reply s net w p of
                  GeometryLineString cs \<Rightarrow> map (\<lambda>c. (snd c, fst c)) cs | _ \<Rightarrow> w)\<rparr>)
   \<and> (get_route_summary_checked s net fl_a w p = Inr r'
      \<and> (\<forall>d t. routing_enabled s \<and> selected_summary_reply s net w p = SummaryRoute d t
             \<longrightarrow> 0 \<le> d \<and> 0 \<le> t)
    \<longrightarrow> 0 \<le> distance r' \<and> 0 \<le> duration r')
   \<and> ((\<forall>i<length w - 1. computable fl_a (w ! i) (w ! (i + 1)))
    \<longrightarrow> (\<exists>res. get_route_summary_checked s net fl_a w p = Inr res))"
proof -
  have a: "calculate_straight_line_summary_checked fl_a w = Inr r
      \<and> (\<not> routing_enabled s \<or> selected_summary_reply s net w p = SummaryError
          \<or> selected_summary_reply s net w p = SummaryEmpty)
    \<longrightarrow> get_route_summary_checked s net fl_a w p = Inr r"
    using summary_checked_fallback [of s net w p fl_a] by auto
  have b: "calculate_straight_line_summary_checked fl_a w = Inr r
    \<longrightarrow> (\<exists>ds. length ds = length w - 1
          \<and> (\<forall>i<length w - 1. gc_dist_checked fl_a (w ! i) (w ! (i + 1)) = Inr (ds ! i))
          \<and> distance r = sum_list ds)
       \<and> duration r = distance r / 25 * 60
       \<and> coordinates r = w
       \<and> 0 \<le> distance r
       \<and> 0 \<le> duration r"
    using straight_line_checked_Inr [of fl_a w r] by blast
  have c: "routing_enabled s \<and> selected_summary_reply s net w p = SummaryRoute d t
    \<longrightarrow> get_route_summary_checked s net fl_a w p =
          Inr \<lparr>distance = d / 1000, duration = t / 60,
               coordinates = (case selected_route_reply s net w p of
                  GeometryLineString cs \<Rightarrow> map (\<lambda>c. (snd c, fst c)) cs | _ \<Rightarrow> w)\<rparr>"
    using summary_checked_provider by blast
  have e: "get_route_summary_checked s net fl_a w p = Inr r'
      \<and> (\<forall>d t. routing_enabled s \<and> selected_summary_reply s net w p = SummaryRoute d t
             \<longrightarrow> 0 \<le> d \<and> 0 \<le> t)
    \<longrightarrow> 0 \<le> distance r' \<and> 0 \<le> duration r'"
    using summary_checked_nonneg [of s net fl_a w p r'] by blast
  have f: "(\<forall>i<length w - 1. computable fl_a (w ! i) (w ! (i + 1)))
    \<longrightarrow> (\<exists>res. get_route_summary_checked s net fl_a w p = Inr res)"
    using summary_checked_returns by blast
  from a b c e f show ?thesis by (intro conjI)
qed


theorem route_summary_degrades_witness:
  "\<not> routing_enabled disabled_settings
   \<and> length north_leg - 1 = 1
   \<and> computable haversine_a (north_leg ! 0) (north_leg ! 1)
   \<and> get_route_summary_checked disabled_settings geometry_down_net haversine_a north_leg
       ''driving-car'' =
       Inr \<lparr>distance = 6371 * radians (1 / 100),
            duration = 6371 * radians (1 / 100) / 25 * 60, coordinates = north_leg\<rparr>
   \<and> 0 < 6371 * radians (1 / 100)
   \<and> routing_enabled key_settings
   \<and> selected_summary_reply key_settings geometry_down_net north_leg ''driving-car'' =
       SummaryRoute 5000 600
   \<and> get_route_summary_checked key_settings geometry_down_net haversine_a north_leg
       ''driving-car'' =
       Inr \<lparr>distance = 5, duration = 10, coordinates = north_leg\<rparr>"
proof -
  have d: "\<not> routing_enabled disabled_settings"
    by (simp add: routing_enabled_def disabled_settings_def)
  have k: "routing_enabled key_settings"
    by (simp add: routing_enabled_def key_settings_def)
  have r: "selected_summary_reply key_settings geometry_down_net north_leg ''driving-car'' =
       SummaryRoute 5000 600"
    by (simp add: selected_summary_reply_def key_settings_def geometry_down_net_def truthy_str_def)
  have g: "selected_route_reply key_settings geometry_down_net north_leg ''driving-car'' =
       GeometryError"
    by (simp add: selected_route_reply_def key_settings_def geometry_down_net_def truthy_str_def)
  have l: "length north_leg - 1 = 1" by (simp add: north_leg_def)
  have c: "computable haversine_a (north_leg ! 0) (north_leg ! 1)"
    using haversine_a_range by (simp add: computable_def)
  have p: "0 < 6371 * radians (1 / 100)" by (simp add: radians_def)
  note fallback = route_summary_degrades [where fl_a = haversine_a and w = north_leg
      and s = disabled_settings and net = geometry_down_net and p = "''driving-car''"
      and r = "\<lparr>distance = 6371 * radians (1 / 100),
            duration = 6371 * radians (1 / 100) / 25 * 60, coordinates = north_leg\<rparr>"]
  from fallback d north_leg_straight
  have 1: "get_route_summary_checked disabled_settings geometry_down_net haversine_a north_leg
       ''driving-car'' =
       Inr \<lparr>distance = 6371 * radians (1 / 100),
            duration = 6371 * radians (1 / 100) / 25 * 60, coordinates = north_leg\<rparr>"
    by blast
  note provider = route_summary_degrades [where fl_a = haversine_a and w = north_leg
      and s = key_settings and net = geometry_down_net and p = "''driving-car''"
      and d = 5000 and t = 600]
  from provider k r
  have "get_route_summary_checked key_settings geometry_down_net haversine_a north_leg
       ''driving-car'' =
       Inr \<lparr>distance = 5000 / 1000, duration = 600 / 60,
            coordinates = (case selected_route_reply key_settings geometry_down_net north_leg
                ''driving-car'' of
               GeometryLineString cs \<Rightarrow> map (\<lambda>c. (snd c, fst c)) cs | _ \<Rightarrow> north_leg)\<rparr>"
    by blast
  then have 2: "get_route_summary_checked key_settings geometry_down_net haversine_a north_leg
       ''driving-car'' =
       Inr \<lparr>distance = 5, duration = 10, coordinates = north_leg\<rparr>"
    by (simp add: g)
  from d l c 1 p k r 2 show ?thesis by (intro conjI)
qed

text \<open>
  Claim C1 as stated fails: with an API key, a metrics reply of 5000 m and 600 s and a
  geometry request that fails with a network error, the result is not the straight-line
  fallback; and a provider that answers a negative distance makes the result's distance
  negative. (The operation is evaluated in exact arithmetic here; by lemma
  \<open>summary_checked_exact\<close> the version with the error branch returns the same results
  when \<open>a\<close> is computed exactly.)
\<close>

theorem route_summary_fallback_counterexample:
  "openroute_route_reply geometry_down_net (lon_lat depot_twice) ''driving-car'' = GeometryError
   \<and> get_route_summary key_settings geometry_down_net depot_twice ''driving-car'' \<noteq>
       calculate_straight_line_summary depot_twice
   \<and> distance (get_route_summary key_settings negative_net depot_twice ''driving-car'') < 0"
  by (simp add: depot_twice_straight get_route_summary_def get_openroute_summary_def
      get_openroute_route_def key_settings_def geometry_down_net_def negative_net_def
      routing_enabled_def truthy_str_def Let_def)

lemma route_coordinates_short:
  "length w < 2 \<Longrightarrow> get_route_coordinates s net w p = w"
  by (simp add: get_route_coordinates_def)

lemma short_straight_line:
  "length w < 2 \<Longrightarrow>
   calculate_straight_line_summary w = \<lparr>distance = 0, duration = 0, coordinates = w\<rparr>"
proof -
  assume "length w < 2"
  then have "length w - 1 = 0" by simp
  then show ?thesis by (simp add: calculate_straight_line_summary_def Let_def)
qed

lemma short_summary_fallback:
  assumes "length w < 2"
    and "\<not> routing_enabled s \<or> selected_summary_reply s net w p = SummaryError
         \<or> selected_summary_reply s net w p = SummaryEmpty"
  shows "get_route_summary s net w p = \<lparr>distance = 0, duration = 0, coordinates = w\<rparr>"
  using summary_fallback [OF assms(2)] short_straight_line [OF assms(1)] by simp

text \<open>
  Claim C9, at an input where the code departs from it: \<open>get_route_summary\<close> has no test
  of the number of waypoints (\<open>get_route_coordinates\<close> has one), so with one waypoint it
  still asks the provider and returns the provider's figures. (The metrics are zero when
  routing is disabled or the provider has no answer: lemma \<open>short_summary_fallback\<close>.)
\<close>

theorem short_summary_asks_provider:
  "length one_waypoint < 2
   \<and> get_route_summary no_key_settings geometry_down_net one_waypoint ''driving-car'' =
       \<lparr>distance = 1, duration = 1, coordinates = one_waypoint\<rparr>"
  by (simp add: get_route_summary_def get_osrm_summary_def get_osrm_route_def
      no_key_settings_def geometry_down_net_def one_waypoint_def routing_enabled_def
      truthy_str_def Let_def)

section \<open>The delivery-time estimate\<close>

lemma vehicle_speed_table:
  "(case vehicle_speeds v of Some x \<Rightarrow> x | None \<Rightarrow> 25) = spec_vehicle_speed v"
  by (simp add: vehicle_speeds_def spec_vehicle_speed_def)

lemma priority_factor_table:
  "(case priority_factors p of Some x \<Rightarrow> x | None \<Rightarrow> 1.0) = spec_priority_factor p"
  by (simp add: priority_factors_def spec_priority_factor_def)

lemma traffic_factor_table:
  "get_traffic_factor la lo h dw = spec_traffic_factor h dw"
  by (simp add: get_traffic_factor_def spec_traffic_factor_def)

text \<open>
  Claim C5. With a courier, the estimate is 30 minutes of preparation plus
  \<open>distance / speed * 60\<close> minutes multiplied by the traffic factor and by the priority
  factor, with the speeds, traffic factors and priority factors of the specification's
  tables; for a car, 10 km, hour 8 on a weekday and priority urgent it is 43.5 minutes.
\<close>

theorem delivery_time_formula:
  "calculate_delivery_time clk d order (Some courier) =
     30 + (delivery_distance courier order / spec_vehicle_speed (vehicle_type courier) * 60)
            * spec_traffic_factor (now_hour clk) (now_weekday clk)
            * spec_priority_factor (priority order)
   \<and> (vehicle_type courier = ''car'' \<and> delivery_distance courier order = 10
        \<and> now_weekday clk < 5 \<and> now_hour clk = 8 \<and> priority order = ''urgent''
      \<longrightarrow> calculate_delivery_time clk d order (Some courier) = 43.5)"
proof -
  have f: "calculate_delivery_time clk d order (Some courier) =
     30 + (delivery_distance courier order / spec_vehicle_speed (vehicle_type courier) * 60)
            * spec_traffic_factor (now_hour clk) (now_weekday clk)
            * spec_priority_factor (priority order)"
    unfolding calculate_delivery_time_def delivery_distance_def Let_def
      vehicle_speed_table priority_factor_table traffic_factor_table base_preparation_time_def
    by simp
  have "calculate_delivery_time clk d order (Some courier) = 43.5"
    if "vehicle_type courier = ''car''" "delivery_distance courier order = 10"
       "now_weekday clk < 5" "now_hour clk = 8" "priority order = ''urgent''"
    unfolding f using that
    by (simp add: spec_vehicle_speed_def spec_traffic_factor_def spec_priority_factor_def)
  with f show ?thesis by blast
qed

lemma urgent_order_distance: "delivery_distance car_courier urgent_order = 10"
proof -
  have r: "radians (50 + 1800 / (6371 * pi) - 50) = 10 / 6371"
    by (simp add: radians_def)
  have "10 / 6371 < (2::real)" by simp
  also have "\<dots> \<le> pi" by (rule pi_ge_two)
  finally have lt: "10 / 6371 < pi" .
  have "calculate_distance 50 30 (50 + 1800 / (6371 * pi)) 30 = 6371 * (10 / 6371)"
    using lt same_meridian_distance [where p = 50 and q = "50 + 1800 / (6371 * pi)" and lon = 30]
    unfolding r by simp
  moreover have "50 + 1800 / (6371 * pi) \<noteq> 0"
  proof -
    have "0 < 50 + 1800 / (6371 * pi)" by (intro add_pos_pos) simp_all
    then show ?thesis by simp
  qed
  ultimately show ?thesis
    by (simp add: delivery_distance_def car_courier_def urgent_order_def no_client_def
        por_default_def por_def truthy_def Let_def)
qed

theorem delivery_time_formula_witness:
  "vehicle_type car_courier = ''car'' \<and> delivery_distance car_courier urgent_order = 10
   \<and> now_weekday demo_clock < 5 \<and> now_hour demo_clock = 8 \<and> priority urgent_order = ''urgent''
   \<and> calculate_delivery_time demo_clock empty_db urgent_order (Some car_courier) = 43.5"
  using delivery_time_formula [of demo_clock empty_db urgent_order car_courier]
    urgent_order_distance
  by (simp add: car_courier_def demo_clock_def urgent_order_def)

section \<open>The route optimizer\<close>

lemma min_key_snoc:
  "min_key f x (xs @ [y]) = (if f y < f (min_key f x xs) then y else min_key f x xs)"
  by (simp add: min_key_def)

lemma min_key_least: "y \<in> set (x # xs) \<Longrightarrow> f (min_key f x xs) \<le> f y"
proof (induction xs arbitrary: y rule: rev_induct)
  case Nil
  then show ?case by (simp add: min_key_def)
next
  case (snoc z zs)
  show ?case
  proof (cases "y = z")
    case True
    then show ?thesis by (simp add: min_key_snoc)
  next
    case False
    with snoc.prems have "y \<in> set (x # zs)" by auto
    then have "f (min_key f x zs) \<le> f y" by (rule snoc.IH)
    then show ?thesis by (simp add: min_key_snoc)
  qed
qed

lemma min_key_first:
  "\<exists>pre post. x # xs = pre @ min_key f x xs # post
     \<and> (\<forall>y \<in> set pre. f (min_key f x xs) < f y)"
proof (induction xs rule: rev_induct)
  case Nil
  have "[x] = [] @ min_key f x [] # [] \<and> (\<forall>y \<in> set []. f (min_key f x []) < f y)"
    by (simp add: min_key_def)
  then show ?case by blast
next
  case (snoc z zs)
  then obtain pre post where d: "x # zs = pre @ min_key f x zs # post"
    and l: "\<forall>y \<in> set pre. f (min_key f x zs) < f y" by blast
  show ?case
  proof (cases "f z < f (min_key f x zs)")
    case True
    have "\<forall>y \<in> set (x # zs). f z < f y"
    proof
      fix y assume "y \<in> set (x # zs)"
      then have "f (min_key f x zs) \<le> f y" by (rule min_key_least)
      with True show "f z < f y" by simp
    qed
    with True have "x # zs @ [z] = (x # zs) @ min_key f x (zs @ [z]) # []
        \<and> (\<forall>y \<in> set (x # zs). f (min_key f x (zs @ [z])) < f y)"
      by (simp add: min_key_snoc)
    then show ?thesis by blast
  next
    case False
    with d l have "x # zs @ [z] = pre @ min_key f x (zs @ [z]) # (post @ [z])
        \<and> (\<forall>y \<in> set pre. f (min_key f x (zs @ [z])) < f y)"
      by (simp add: min_key_snoc)
    then show ?thesis by blast
  qed
qed

lemma min_key_tie:
  assumes "sorted (x # xs)" "j \<in> set (x # xs)" "f j = f (min_key f x xs)"
  shows "min_key f x xs \<le> (j::nat)"
proof -
  obtain pre post where d: "x # xs = pre @ min_key f x xs # post"
    and l: "\<forall>y \<in> set pre. f (min_key f x xs) < f y"
    using min_key_first [of x xs f] by blast
  from assms(2) d have "j \<in> set pre \<or> j = min_key f x xs \<or> j \<in> set post"
    by (metis Un_iff set_ConsD set_append)
  moreover have "j \<notin> set pre" using l assms(3) by auto
  moreover have "min_key f x xs \<le> j" if "j \<in> set post"
    using assms(1) that unfolding d by (simp add: sorted_append)
  ultimately show ?thesis by auto
qed

lemma nearest_neighbor_append:
  "\<exists>ps. nearest_neighbor locs us route = route @ ps \<and> mset ps = mset us"
proof (induction locs us route rule: nearest_neighbor.induct)
  case (1 locations route)
  then show ?case by simp
next
  case (2 locations u us route)
  define m where "m = min_key (\<lambda>idx. gc_dist (locations ! last route) (locations ! idx)) u us"
  have mem: "m \<in> set (u # us)" unfolding m_def by (rule min_key_in_set)
  from 2 [OF refl refl m_def]
  obtain ps where ps: "nearest_neighbor locations (remove1 m (u # us)) (route @ [m]) = (route @ [m]) @ ps"
    and ms: "mset ps = mset (remove1 m (u # us))" by blast
  have "nearest_neighbor locations (u # us) route = route @ (m # ps)"
    using ps by (simp add: Let_def m_def)
  moreover have "mset (m # ps) = mset (u # us)"
    using ms mem by (simp only: mset.simps mset_remove1) simp
  ultimately show ?case by blast
qed

lemma nearest_neighbor_greedy:
  "route \<noteq> [] \<Longrightarrow> sorted us \<Longrightarrow> distinct us \<Longrightarrow> set us \<inter> set route = {}
   \<Longrightarrow> length route \<le> k \<Longrightarrow> k < length (nearest_neighbor locs us route)
   \<Longrightarrow> nearest_choice locs (set us) (nearest_neighbor locs us route) k"
proof (induction locs us route rule: nearest_neighbor.induct)
  case (1 locations route)
  then show ?case by simp
next
  case (2 locations u us route)
  define f where "f = (\<lambda>idx. gc_dist (locations ! last route) (locations ! idx))"
  define m where "m = min_key f u us"
  define r where "r = nearest_neighbor locations (u # us) route"
  have mem: "m \<in> set (u # us)" unfolding m_def by (rule min_key_in_set)
  have r_eq: "r = nearest_neighbor locations (remove1 m (u # us)) (route @ [m])"
    by (simp add: r_def m_def f_def Let_def)
  obtain ps where ps: "r = (route @ [m]) @ ps"
    using nearest_neighbor_append [of locations "remove1 m (u # us)" "route @ [m]"] r_eq by auto
  have notin: "m \<notin> set route" using mem "2.prems"(4) by auto
  show ?case
  proof (cases "k = length route")
    case True
    have rk: "r ! k = m" by (simp add: ps True nth_append)
    have rk1: "r ! (k - 1) = last route"
      using "2.prems"(1) by (simp add: ps True nth_append last_conv_nth)
    have tk: "take k r = route" by (simp add: ps True)
    have least: "f m \<le> f j" if "j \<in> set (u # us)" for j
      unfolding m_def using that by (rule min_key_least)
    have tie: "m \<le> j" if "j \<in> set (u # us)" "f j = f m" for j
      unfolding m_def using "2.prems"(2) that(1) that(2) [unfolded m_def] by (rule min_key_tie)
    have "nearest_choice locations (set (u # us)) r k"
      unfolding nearest_choice_def rk rk1 tk
      using mem notin least tie by (auto simp: f_def)
    then show ?thesis by (simp only: r_def)
  next
    case False
    with "2.prems"(5) have k: "length (route @ [m]) \<le> k" by simp
    have kl: "k < length (nearest_neighbor locations (remove1 m (u # us)) (route @ [m]))"
      using "2.prems"(6) r_eq r_def by simp
    have s: "sorted (remove1 m (u # us))" using "2.prems"(2) by (rule sorted_remove1)
    have d: "distinct (remove1 m (u # us))" using "2.prems"(3) by (rule distinct_remove1)
    have se: "set (remove1 m (u # us)) = set (u # us) - {m}"
      using "2.prems"(3) by (rule set_remove1_eq)
    have dj: "set (remove1 m (u # us)) \<inter> set (route @ [m]) = {}"
      using "2.prems"(4) unfolding se by auto
    have ne: "route @ [m] \<noteq> []" by simp
    have ih: "nearest_choice locations (set (remove1 m (u # us))) r k"
      using "2.IH" [OF refl refl m_def [unfolded f_def] ne s d dj k kl] r_eq by simp
    have "m \<in> set (take k r)"
    proof -
      have lt: "length route < k" using k by simp
      then have "length route < length (take k r)" using kl r_eq by simp
      then have "take k r ! length route \<in> set (take k r)" by (rule nth_mem)
      moreover have "take k r ! length route = m" using lt by (simp add: ps nth_append)
      ultimately show ?thesis by simp
    qed
    then have "set (u # us) - {m} - set (take k r) = set (u # us) - set (take k r)" by auto
    with ih have "nearest_choice locations (set (u # us)) r k"
      unfolding nearest_choice_def se by simp
    then show ?thesis by (simp only: r_def)
  qed
qed

lemma tour_structure:
  "\<exists>ps. tour locs = 0 # ps \<and> mset ps = mset [1 ..< length locs]"
  using nearest_neighbor_append [of locs "[1 ..< length locs]" "[0]"] by (simp add: tour_def)

lemma tour_length: "length (tour locs) = Suc (length locs - 1)"
proof -
  obtain ps where "tour locs = 0 # ps" "mset ps = mset [1 ..< length locs]"
    using tour_structure by blast
  then have "length ps = length [1 ..< length locs]" by (metis size_mset)
  with \<open>tour locs = 0 # ps\<close> show ?thesis by simp
qed

lemma tour_greedy:
  assumes "1 \<le> k" "k < length locs"
  shows "nearest_choice locs {1 ..< length locs} (tour locs) k"
proof -
  have "k < length (nearest_neighbor locs [1 ..< length locs] [0])"
    using assms tour_length [of locs] by (simp add: tour_def)
  with assms(1) have "nearest_choice locs (set [1 ..< length locs])
      (nearest_neighbor locs [1 ..< length locs] [0]) k"
    by (intro nearest_neighbor_greedy) simp_all
  then show ?thesis by (simp add: tour_def)
qed

lemma length_route_locations: "length (route_locations courier orders) = Suc (length orders)"
  by (simp add: route_locations_def)

lemma map_snd_enumerate_fun: "map (\<lambda>x. g (snd x)) (enumerate n xs) = map g xs"
  by (induction xs arbitrary: n) simp_all

lemma entry_locations:
  "orders \<noteq> [] \<Longrightarrow>
   map entry_location (result_route (optimize_route s net courier orders)) =
     map (\<lambda>idx. route_locations courier orders ! idx) (tl (tour (route_locations courier orders)))"
  by (simp add: optimize_route_def Let_def split_def comp_def map_snd_enumerate_fun)

text \<open>
  Claim C4. For a non-empty order list the tour of \<open>optimize_route\<close> starts at the start
  location, visits every order location once, and at each step appends an unvisited order
  location at least great-circle distance from the current position; of several such
  locations at exactly that distance it takes the first in input order. The stops of the
  result carry the locations in tour order.
\<close>

theorem optimize_route_nearest_neighbor:
  assumes "orders \<noteq> []"
  shows "length (tour (route_locations courier orders)) = length orders + 1
     \<and> tour (route_locations courier orders) ! 0 = 0
     \<and> route_locations courier orders ! 0 = start_location courier
     \<and> map entry_location (result_route (optimize_route s net courier orders)) =
         map (\<lambda>idx. route_locations courier orders ! idx)
           (tl (tour (route_locations courier orders)))
     \<and> (\<forall>k. 1 \<le> k \<and> k \<le> length orders \<longrightarrow>
           nearest_choice (route_locations courier orders) {1 ..< length orders + 1}
             (tour (route_locations courier orders)) k)"
proof -
  let ?locs = "route_locations courier orders"
  have a: "length (tour ?locs) = length orders + 1"
    by (simp add: tour_length length_route_locations)
  have b: "tour ?locs ! 0 = 0"
    using tour_structure [of ?locs] by auto
  have c: "?locs ! 0 = start_location courier"
    by (simp add: route_locations_def)
  have e: "nearest_choice ?locs {1 ..< length orders + 1} (tour ?locs) k"
    if "1 \<le> k \<and> k \<le> length orders" for k
    using tour_greedy [of k ?locs] that by (simp add: length_route_locations)
  from a b c entry_locations [OF assms] e show ?thesis by blast
qed

lemma near_before_far: "gc_dist (50, 30) (50.01, 30) < gc_dist (50, 30) (50.03, 30)"
proof -
  have a: "gc_dist (50, 30) (50.01, 30) = 6371 * radians 0.01"
    using north_distance [of "0.01"] by simp
  have b: "gc_dist (50, 30) (50.03, 30) = 6371 * radians 0.03"
    using north_distance [of "0.03"] by simp
  show ?thesis unfolding a b by (simp add: radians_def)
qed

lemma far_near_locations:
  "route_locations car_courier [far_order, near_order] = [(50, 30), (50.03, 30), (50.01, 30)]"
  by (simp add: route_locations_def start_location_def order_location_def car_courier_def
      far_order_def near_order_def no_client_def por_default_def por_def truthy_def Let_def)

lemma far_near_tour: "tour [(50, 30), (50.03, 30), (50.01, 30)] = [0, 2, 1]"
proof -
  have "[1 ..< 3] = [1, 2::nat]" by (simp add: upt_rec)
  then show ?thesis
    using near_before_far by (simp add: tour_def min_key_def Let_def)
qed

theorem optimize_route_nearest_neighbor_witness:
  "[far_order, near_order] \<noteq> []
   \<and> tour (route_locations car_courier [far_order, near_order]) = [0, 2, 1]
   \<and> (1::nat) \<le> 1 \<and> (1::nat) \<le> length [far_order, near_order]
   \<and> (1::nat) \<in> {1 ..< length [far_order, near_order] + 1} - set (take 1 [0, 2, 1])
   \<and> gc_dist (50, 30) (50.01, 30) \<le> gc_dist (50, 30) (50.03, 30)"
proof -
  have ne: "[far_order, near_order] \<noteq> []" by simp
  have t: "tour (route_locations car_courier [far_order, near_order]) = [0, 2, 1]"
    by (simp only: far_near_locations far_near_tour)
  let ?L = "route_locations car_courier [far_order, near_order]"
  have k: "(1::nat) \<le> 1 \<and> (1::nat) \<le> length [far_order, near_order]" by simp
  from optimize_route_nearest_neighbor [OF ne, of car_courier] k
  have "nearest_choice ?L {1 ..< length [far_order, near_order] + 1} (tour ?L) 1"
    by blast
  then have "\<forall>j \<in> {1 ..< length [far_order, near_order] + 1} - set (take 1 [0, 2, 1]).
      gc_dist (?L ! ([0, 2, 1] ! (1 - 1))) (?L ! ([0, 2, 1] ! 1))
        \<le> gc_dist (?L ! ([0, 2, 1] ! (1 - 1))) (?L ! j)"
    unfolding nearest_choice_def t by blast
  moreover have m: "(1::nat) \<in> {1 ..< length [far_order, near_order] + 1} - set (take 1 [0, 2, 1])"
    by simp
  ultimately have "gc_dist (?L ! ([0, 2, 1] ! (1 - 1))) (?L ! ([0, 2, 1] ! 1))
        \<le> gc_dist (?L ! ([0, 2, 1] ! (1 - 1))) (?L ! 1)"
    by (rule bspec)
  then have "gc_dist (50, 30) (50.01, 30) \<le> gc_dist (50, 30) (50.03, 30)"
    by (simp add: far_near_locations)
  with t m show ?thesis by simp
qed


lemma map_fst_enumerate_fun: "map (\<lambda>x. g (fst x)) (enumerate n xs) = map g [n ..< n + length xs]"
  by (simp add: map_fst_enumerate flip: map_map [of g fst, unfolded comp_def])

lemma entry_sequences:
  "orders \<noteq> [] \<Longrightarrow>
   map entry_sequence (result_route (optimize_route s net courier orders)) =
     [1 ..< length orders + 1]"
proof -
  assume "orders \<noteq> []"
  then have "map entry_sequence (result_route (optimize_route s net courier orders)) =
     map (\<lambda>i. i) [1 ..< 1 + length (tl (tour (route_locations courier orders)))]"
    by (simp add: optimize_route_def Let_def split_def comp_def map_fst_enumerate_fun)
  also have "length (tl (tour (route_locations courier orders))) = length orders"
    by (simp add: tour_length length_route_locations)
  finally show ?thesis by simp
qed

lemma entry_orders:
  "orders \<noteq> [] \<Longrightarrow>
   map entry_order (result_route (optimize_route s net courier orders)) =
     map (\<lambda>idx. orders ! (idx - 1)) (tl (tour (route_locations courier orders)))"
  by (simp add: optimize_route_def Let_def split_def comp_def
      map_snd_enumerate_fun [where g = "\<lambda>idx. orders ! (idx - Suc 0)"])

lemma foldl_create_route_order:
  "foldl (create_route_order rid) d es =
     d\<lparr>route_order_table := route_order_table d @
        map (\<lambda>e. \<lparr>ro_route = rid, ro_order = order_id (entry_order e),
                  ro_sequence = entry_sequence e\<rparr>) es\<rparr>"
  by (induction es arbitrary: d) (simp_all add: create_route_order_def)

lemma shifted_nth_upt: "map (\<lambda>idx. xs ! (idx - 1)) [1 ..< length xs + 1] = xs"
proof -
  have "[1 ..< length xs + 1] = map Suc [0 ..< length xs]"
    by (simp add: map_Suc_upt)
  then have "map (\<lambda>idx. xs ! (idx - 1)) [1 ..< length xs + 1] = map (\<lambda>i. xs ! i) [0 ..< length xs]"
    by (simp add: comp_def)
  then show ?thesis by (simp add: map_nth)
qed

lemma tour_tail_perm:
  "mset (tl (tour (route_locations courier orders))) = mset [1 ..< length orders + 1]"
  using tour_structure [of "route_locations courier orders"]
  by (auto simp: length_route_locations)

text \<open>
  Claim C6. For a non-empty list of \<open>n\<close> orders \<open>create_delivery_route\<close> returns a
  route and adds to the route stops exactly \<open>n\<close> rows, all of the new route, whose sequence
  values are \<open>1, \<dots>, n\<close> in this order; the \<open>k\<close>-th row is the order visited at
  position \<open>k\<close> of the tour, the start excluded, and the rows' orders are the input orders,
  each once.
\<close>

theorem create_delivery_route_stops:
  assumes "orders \<noteq> []"
  shows "\<exists>new_route stops.
       create_delivery_route s net clk c orders name d =
         (Inr new_route,
          d\<lparr>delivery_route_table := delivery_route_table d @ [new_route],
            route_order_table := route_order_table d @ stops\<rparr>)
     \<and> length stops = length orders
     \<and> map ro_sequence stops = [1 ..< length orders + 1]
     \<and> map ro_route stops = replicate (length orders) (route_id new_route)
     \<and> map ro_order stops =
         map (\<lambda>idx. order_id (orders ! (idx - 1))) (tl (tour (route_locations c orders)))
     \<and> mset (tl (tour (route_locations c orders))) = mset [1 ..< length orders + 1]
     \<and> mset (map ro_order stops) = mset (map order_id orders)"
proof -
  define res where "res = optimize_route s net c orders"
  define rid where "rid = next_route_id d"
  define stops where "stops = map (\<lambda>e. \<lparr>ro_route = rid, ro_order = order_id (entry_order e),
                  ro_sequence = entry_sequence e\<rparr>) (result_route res)"
  let ?t = "tl (tour (route_locations c orders))"
  have co: "result_route_coordinates res \<noteq> None"
    using assms by (simp add: res_def optimize_route_def Let_def)
  have seq: "map ro_sequence stops = [1 ..< length orders + 1]"
    using entry_sequences [OF assms, of s net c]
    by (simp add: stops_def res_def comp_def flip: map_map [of _ entry_sequence, unfolded comp_def])
  from seq have "length (map ro_sequence stops) = length [1 ..< length orders + 1]"
    by (rule arg_cong)
  then have len: "length stops = length orders"
    by (simp only: length_map length_upt add_diff_cancel_right')
  have rt: "map ro_route stops = replicate (length orders) rid"
    using len by (simp add: stops_def comp_def map_replicate_const)
  have "map ro_order stops = map order_id (map entry_order (result_route res))"
    by (simp add: stops_def comp_def)
  then have ord: "map ro_order stops = map (\<lambda>idx. order_id (orders ! (idx - 1))) ?t"
    using entry_orders [OF assms, of s net c] by (simp add: res_def comp_def)
  have "mset (map ro_order stops) = image_mset (\<lambda>idx. order_id (orders ! (idx - 1))) (mset ?t)"
    by (simp add: ord)
  also have "\<dots> = mset (map order_id (map (\<lambda>idx. orders ! (idx - 1)) [1 ..< length orders + 1]))"
    by (simp add: tour_tail_perm comp_def)
  finally have ms: "mset (map ro_order stops) = mset (map order_id orders)"
    by (simp only: shifted_nth_upt)
  obtain new_route where
    cr: "create_delivery_route s net clk c orders name d =
         (Inr new_route,
          d\<lparr>delivery_route_table := delivery_route_table d @ [new_route],
            route_order_table := route_order_table d @ stops\<rparr>)"
    and ri: "route_id new_route = rid"
    using co
    by (auto simp: create_delivery_route_def Let_def foldl_create_route_order stops_def
        res_def rid_def)
  from cr len seq rt ri ord ms tour_tail_perm [of c orders] show ?thesis by blast
qed

theorem create_delivery_route_stops_witness:
  "[far_order, near_order] \<noteq> []
   \<and> map order_id [far_order, near_order] = [3, 4]
   \<and> tour (route_locations car_courier [far_order, near_order]) = [0, 2, 1]
   \<and> map ro_sequence (route_order_table (snd (create_delivery_route disabled_settings
        geometry_down_net demo_clock car_courier [far_order, near_order] None empty_db))) = [1, 2]
   \<and> map ro_order (route_order_table (snd (create_delivery_route disabled_settings
        geometry_down_net demo_clock car_courier [far_order, near_order] None empty_db))) = [4, 3]"
proof -
  have ne: "[far_order, near_order] \<noteq> []" by simp
  have ids: "map order_id [far_order, near_order] = [3, 4]"
    by (simp add: far_order_def near_order_def)
  have t: "tour (route_locations car_courier [far_order, near_order]) = [0, 2, 1]"
    by (simp only: far_near_locations far_near_tour)
  from create_delivery_route_stops [OF ne, of disabled_settings geometry_down_net demo_clock
      car_courier None empty_db]
  obtain new_route stops where
    cr: "create_delivery_route disabled_settings geometry_down_net demo_clock car_courier
           [far_order, near_order] None empty_db =
         (Inr new_route,
          empty_db\<lparr>delivery_route_table := delivery_route_table empty_db @ [new_route],
            route_order_table := route_order_table empty_db @ stops\<rparr>)"
    and seq: "map ro_sequence stops = [1 ..< length [far_order, near_order] + 1]"
    and ord: "map ro_order stops =
         map (\<lambda>idx. order_id ([far_order, near_order] ! (idx - 1)))
           (tl (tour (route_locations car_courier [far_order, near_order])))"
    by blast
  have "[1 ..< length [far_order, near_order] + 1] = [1, 2]" by (simp add: upt_rec)
  with seq have s: "map ro_sequence stops = [1, 2]" by simp
  from ord have o: "map ro_order stops = [4, 3]"
    unfolding t by (simp add: far_order_def near_order_def)
  from cr have "route_order_table (snd (create_delivery_route disabled_settings
      geometry_down_net demo_clock car_courier [far_order, near_order] None empty_db)) = stops"
    by (simp add: empty_db_def)
  with s o ids t show ?thesis by simp
qed


text \<open>
  Claim C2, at the input it is about: for an empty order list \<open>optimize_route\<close> returns
  the empty zero-metric result, but \<open>create_delivery_route\<close> then raises \<open>KeyError\<close>
  on the key \<open>route_coordinates\<close> instead of returning; the database is unchanged.
\<close>

theorem create_delivery_route_empty:
  "create_delivery_route s net clk c [] name d = (Inl (KeyError ''route_coordinates''), d)
   \<and> result_route (optimize_route s net c []) = []
   \<and> result_total_distance (optimize_route s net c []) = 0
   \<and> result_estimated_duration (optimize_route s net c []) = 0"
  by (simp add: create_delivery_route_def optimize_route_def Let_def)

lemma tour_single: "tour [a, b] = [0, 1]"
  by (simp add: tour_def min_key_def)

lemma start_location_present:
  assumes "current_latitude c = Some la" "current_longitude c = Some lo" "la \<noteq> 0" "lo \<noteq> 0"
  shows "start_location c = (la, lo)"
  using assms by (simp add: start_location_def por_default_def Let_def)

lemma start_location_absent:
  assumes "current_latitude c = None" "current_longitude c = None"
  shows "start_location c = (50.4501, 30.5234)"
  using assms by (simp add: start_location_def por_default_def Let_def)

lemma order_location_own:
  assumes "latitude x = Some la" "longitude x = Some lo" "la \<noteq> 0" "lo \<noteq> 0"
  shows "order_location start x = (la, lo)"
  using assms by (simp add: order_location_def por_default_def por_def truthy_def Let_def)

lemma order_location_client:
  assumes "latitude x = None" "longitude x = None"
    and "client_latitude (client x) = Some la" "client_longitude (client x) = Some lo"
    and "la \<noteq> 0" "lo \<noteq> 0"
  shows "order_location start x = (la, lo)"
  using assms by (simp add: order_location_def por_default_def por_def truthy_def Let_def)

lemma order_location_start:
  assumes "latitude x = None" "longitude x = None"
    and "client_latitude (client x) = None" "client_longitude (client x) = None"
  shows "order_location start x = start"
  using assms by (simp add: order_location_def por_default_def por_def truthy_def Let_def)

text \<open>
  Claim C8, at an input where the code departs from it: a coordinate equal to 0 is false
  in Python and is replaced. A courier at (51.5, 0) starts at (51.5, 30.5234), which is
  neither its position nor the depot; an order at (51.6, 0) whose client is at (50.4, 30.6)
  gets the stop (51.6, 30.6), which is neither the order's position, nor the client's, nor
  the start.
\<close>

theorem zero_coordinate_taken_as_missing:
  "current_latitude greenwich_courier = Some 51.5
   \<and> current_longitude greenwich_courier = Some 0
   \<and> start_location greenwich_courier = (51.5, 30.5234)
   \<and> latitude greenwich_order = Some 51.6
   \<and> longitude greenwich_order = Some 0
   \<and> map entry_location (result_route (optimize_route s net greenwich_courier [greenwich_order]))
       = [(51.6, 30.6)]"
proof -
  have st: "start_location greenwich_courier = (51.5, 30.5234)"
    by (simp add: start_location_def greenwich_courier_def por_default_def Let_def)
  have "map entry_location (result_route (optimize_route s net greenwich_courier [greenwich_order]))
       = [(51.6, 30.6)]"
    by (simp add: optimize_route_def route_locations_def tour_single Let_def enumerate_eq_zip
        start_location_def order_location_def greenwich_courier_def greenwich_order_def
        kyiv_client_def por_default_def por_def truthy_def)
  with st show ?thesis
    by (simp add: greenwich_courier_def greenwich_order_def)
qed

section \<open>The logistics manager\<close>

lemma foldl_pick_in_set:
  assumes "\<And>b x. g b x = b \<or> g b x = x"
  shows "foldl g b cs \<in> insert b (set cs)"
proof (induction cs arbitrary: b)
  case Nil
  show ?case by simp
next
  case (Cons a cs)
  have "foldl g (g b a) cs \<in> insert (g b a) (set cs)" by (rule Cons.IH)
  moreover have "g b a = b \<or> g b a = a" by (rule assms)
  ultimately show ?case by auto
qed

lemma first_in_set: "first qs = Some c \<Longrightarrow> c \<in> set qs"
proof (cases qs)
  case Nil
  assume "first qs = Some c"
  with Nil show ?thesis by (simp add: first_def)
next
  case (Cons q cs)
  let ?g = "\<lambda>best x. if courier_id x < courier_id best then x else best"
  assume "first qs = Some c"
  with Cons have "c = foldl ?g q cs" by (simp add: first_def)
  moreover have "foldl ?g q cs \<in> insert q (set cs)"
    by (rule foldl_pick_in_set) simp
  ultimately show ?thesis using Cons by simp
qed

lemma first_None_iff: "first qs = None \<longleftrightarrow> qs = []"
  by (cases qs) (simp_all add: first_def)

lemma nearer_in_set:
  "fst (foldl (nearer a b) st qs) = Some c \<Longrightarrow> c \<in> set qs \<or> fst st = Some c"
proof (induction qs arbitrary: st)
  case Nil
  then show ?case by simp
next
  case (Cons q qs)
  from Cons.IH [OF Cons.prems [simplified]]
  show ?case by (auto simp: nearer_def Let_def split: if_splits)
qed

lemma resolve_order_location_cases:
  "resolve_order_location net d order = (la, lo, order1, d1) \<Longrightarrow>
     (order1 = order \<and> d1 = d)
     \<or> (truthy la \<and> truthy lo \<and> order1 = order\<lparr>latitude := la, longitude := lo\<rparr>
          \<and> d1 = save_order order1 d)"
  unfolding resolve_order_location_def Let_def
  by (cases "geocode_address net (address order)") (auto split: if_splits)

lemma assign_unavailable:
  "filter available (courier_table d) = [] \<Longrightarrow>
   assign_optimal_courier net d order = (None, order, d)"
  by (simp add: assign_optimal_courier_def)

lemma relocated_refl: "relocated x x"
proof -
  have "x = x\<lparr>latitude := latitude x, longitude := longitude x\<rparr>" by simp
  then show ?thesis unfolding relocated_def by blast
qed

lemma resolve_order_location_relocated:
  assumes "resolve_order_location net d order = (la, lo, order1, d1)"
  shows "relocated order order1" and "d1 = d \<or> d1 = save_order order1 d"
proof -
  from resolve_order_location_cases [OF assms]
  show "relocated order order1"
  proof
    assume "order1 = order \<and> d1 = d"
    then show ?thesis by (simp add: relocated_refl)
  next
    assume "truthy la \<and> truthy lo \<and> order1 = order\<lparr>latitude := la, longitude := lo\<rparr>
          \<and> d1 = save_order order1 d"
    then have "order1 = order\<lparr>latitude := la, longitude := lo\<rparr>" by (elim conjE)
    then show ?thesis unfolding relocated_def by blast
  qed
  from resolve_order_location_cases [OF assms]
  show "d1 = d \<or> d1 = save_order order1 d" by (elim disjE conjE) simp_all
qed

lemma assign_available:
  assumes "filter available (courier_table d) \<noteq> []"
  obtains c order1 d1 where "assign_optimal_courier net d order = (Some c, order1, d1)"
    and "c \<in> set (courier_table d)" and "available c"
    and "relocated order order1" and "d1 = d \<or> d1 = save_order order1 d"
proof -
  let ?A = "filter available (courier_table d)"
  obtain la lo order1 d1 where r: "resolve_order_location net d order = (la, lo, order1, d1)"
    by (rule prod_cases4)
  note w = resolve_order_location_relocated [OF r]
  obtain c0 where f: "first ?A = Some c0"
    using assms first_None_iff [of ?A] by (cases "first ?A") simp_all
  then have c0: "c0 \<in> set ?A" by (rule first_in_set)
  let ?best = "fst (foldl (nearer (por_default la 0) (por_default lo 0)) (None, None) ?A)"
  have "\<exists>c. assign_optimal_courier net d order = (Some c, order1, d1) \<and> c \<in> set ?A"
  proof (cases "\<not> truthy la \<or> \<not> truthy lo")
    case True
    then have "assign_optimal_courier net d order = (Some c0, order1, d1)"
      using assms r f by (simp add: assign_optimal_courier_def)
    with c0 show ?thesis by blast
  next
    case False
    show ?thesis
    proof (cases ?best)
      case None
      then have "assign_optimal_courier net d order = (Some c0, order1, d1)"
        using assms r f False by (simp add: assign_optimal_courier_def)
      with c0 show ?thesis by blast
    next
      case (Some c)
      then have "assign_optimal_courier net d order = (Some c, order1, d1)"
        using assms r False by (simp add: assign_optimal_courier_def)
      moreover have "c \<in> set ?A" using nearer_in_set [OF Some] by simp
      ultimately show ?thesis by blast
    qed
  qed
  then obtain c where a: "assign_optimal_courier net d order = (Some c, order1, d1)"
    and m: "c \<in> set ?A"
    by blast
  from m have "c \<in> set (courier_table d)" "available c" by simp_all
  with a have "assign_optimal_courier net d order = (Some c, order1, d1)"
    "c \<in> set (courier_table d)" "available c" by simp_all
  from this w show ?thesis by (rule that)
qed

lemma assign_none_iff:
  "fst (assign_optimal_courier net d order) = None \<longleftrightarrow> filter available (courier_table d) = []"
proof (cases "filter available (courier_table d) = []")
  case True
  then show ?thesis by (simp add: assign_unavailable)
next
  case False
  then obtain c order1 d1 where "assign_optimal_courier net d order = (Some c, order1, d1)"
    by (rule assign_available)
  with False show ?thesis by simp
qed


lemma equator_nearer:
  "calculate_distance 0 30 0.5 30 < calculate_distance (- 1) 30 0.5 30"
proof -
  have p: "radians 1.5 < pi" "radians 0.5 < pi" by (simp_all add: radians_def)
  have a: "calculate_distance 0 30 0.5 30 = 6371 * radians 0.5"
    using same_meridian_distance [where p = 0 and q = "0.5" and lon = 30] p
    by (simp add: radians_def)
  have b: "calculate_distance (- 1) 30 0.5 30 = 6371 * radians 1.5"
    using same_meridian_distance [where p = "- 1" and q = "0.5" and lon = 30] p
    by (simp add: radians_def)
  show ?thesis unfolding a b by (simp add: radians_def)
qed

lemma nearer_step:
  "nearer la lo st c =
     (if truthy (current_latitude c) \<and> truthy (current_longitude c)
      then (if (case snd st of None \<Rightarrow> True | Some m \<Rightarrow> courier_distance la lo c < m)
            then (Some c, Some (courier_distance la lo c)) else st)
      else st)"
  by (simp only: nearer_def courier_distance_def Let_def)

lemma nearer_fold_from:
  "\<exists>c. foldl (nearer la lo) (Some b, Some (courier_distance la lo b)) qs
          = (Some c, Some (courier_distance la lo c))
     \<and> (c = b \<or> c \<in> set (positioned qs))
     \<and> courier_distance la lo c \<le> courier_distance la lo b
     \<and> (\<forall>q \<in> set (positioned qs). courier_distance la lo c \<le> courier_distance la lo q)"
proof (induction qs arbitrary: b)
  case Nil
  show ?case by (simp add: positioned_def)
next
  case (Cons q qs)
  let ?cd = "courier_distance la lo"
  show ?case
  proof (cases "truthy (current_latitude q) \<and> truthy (current_longitude q) \<and> ?cd q < ?cd b")
    case True
    then have s: "nearer la lo (Some b, Some (?cd b)) q = (Some q, Some (?cd q))"
      by (simp add: nearer_step)
    from Cons.IH [of q] obtain c where
      f: "foldl (nearer la lo) (Some q, Some (?cd q)) qs = (Some c, Some (?cd c))"
      and m: "c = q \<or> c \<in> set (positioned qs)"
      and l: "?cd c \<le> ?cd q"
      and a: "\<forall>x \<in> set (positioned qs). ?cd c \<le> ?cd x"
      by blast
    have pq: "positioned (q # qs) = q # positioned qs"
      using True by (simp add: positioned_def)
    have "foldl (nearer la lo) (Some b, Some (?cd b)) (q # qs) = (Some c, Some (?cd c))"
      using f s by simp
    moreover have "c = b \<or> c \<in> set (positioned (q # qs))" using m pq by auto
    moreover have "?cd c \<le> ?cd b" using l True by simp
    moreover have "\<forall>x \<in> set (positioned (q # qs)). ?cd c \<le> ?cd x" using a l pq by auto
    ultimately show ?thesis by blast
  next
    case False
    then have s: "nearer la lo (Some b, Some (?cd b)) q = (Some b, Some (?cd b))"
      by (auto simp: nearer_step)
    from Cons.IH [of b] obtain c where
      f: "foldl (nearer la lo) (Some b, Some (?cd b)) qs = (Some c, Some (?cd c))"
      and m: "c = b \<or> c \<in> set (positioned qs)"
      and l: "?cd c \<le> ?cd b"
      and a: "\<forall>x \<in> set (positioned qs). ?cd c \<le> ?cd x"
      by blast
    have pq: "set (positioned (q # qs)) \<subseteq> insert q (set (positioned qs))"
      by (auto simp: positioned_def)
    have ql: "?cd c \<le> ?cd q" if "q \<in> set (positioned (q # qs))"
    proof -
      from that have "q \<in> {c \<in> set (q # qs).
          truthy (current_latitude c) \<and> truthy (current_longitude c)}"
        by (simp only: positioned_def set_filter)
      then have "truthy (current_latitude q) \<and> truthy (current_longitude q)" by blast
      with False have "?cd b \<le> ?cd q" by simp
      with l show ?thesis by simp
    qed
    have "foldl (nearer la lo) (Some b, Some (?cd b)) (q # qs) = (Some c, Some (?cd c))"
      using f s by simp
    moreover have "c = b \<or> c \<in> set (positioned (q # qs))"
      using m by (auto simp: positioned_def)
    moreover have "\<forall>x \<in> set (positioned (q # qs)). ?cd c \<le> ?cd x"
    proof
      fix x assume x: "x \<in> set (positioned (q # qs))"
      show "?cd c \<le> ?cd x"
      proof (cases "x \<in> set (positioned qs)")
        case True
        with a show ?thesis by simp
      next
        case False
        with x pq have "x = q" by auto
        with x ql show ?thesis by simp
      qed
    qed
    ultimately show ?thesis using l by blast
  qed
qed

lemma nearer_fold:
  "(positioned qs = [] \<and> foldl (nearer la lo) (None, None) qs = (None, None))
   \<or> (\<exists>c. fst (foldl (nearer la lo) (None, None) qs) = Some c
          \<and> c \<in> set (positioned qs)
          \<and> (\<forall>q \<in> set (positioned qs). courier_distance la lo c \<le> courier_distance la lo q))"
proof (induction qs)
  case Nil
  show ?case by (simp add: positioned_def)
next
  case (Cons q qs)
  let ?cd = "courier_distance la lo"
  show ?case
  proof (cases "truthy (current_latitude q) \<and> truthy (current_longitude q)")
    case True
    then have s: "nearer la lo (None, None) q = (Some q, Some (?cd q))"
      by (simp add: nearer_step)
    have pq: "positioned (q # qs) = q # positioned qs"
      using True by (simp add: positioned_def)
    from nearer_fold_from [of la lo q qs] obtain c where
      f: "foldl (nearer la lo) (Some q, Some (?cd q)) qs = (Some c, Some (?cd c))"
      and m: "c = q \<or> c \<in> set (positioned qs)"
      and l: "?cd c \<le> ?cd q"
      and a: "\<forall>x \<in> set (positioned qs). ?cd c \<le> ?cd x"
      by blast
    have "fst (foldl (nearer la lo) (None, None) (q # qs)) = Some c" using f s by simp
    moreover have "c \<in> set (positioned (q # qs))" using m pq by auto
    moreover have "\<forall>x \<in> set (positioned (q # qs)). ?cd c \<le> ?cd x" using a l pq by auto
    ultimately show ?thesis by blast
  next
    case False
    then have s: "nearer la lo (None, None) q = (None, None)"
      by (auto simp: nearer_step)
    have pq: "positioned (q # qs) = positioned qs"
      using False by (auto simp: positioned_def)
    from Cons.IH show ?thesis unfolding pq by (simp add: s)
  qed
qed

lemma assign_nearest:
  assumes av: "filter available (courier_table d) \<noteq> []"
    and rs: "resolve_order_location net d order = (Some la, Some lo, order1, d1)"
    and nz: "la \<noteq> 0" "lo \<noteq> 0"
    and ps: "positioned (filter available (courier_table d)) \<noteq> []"
  shows "\<exists>c. fst (assign_optimal_courier net d order) = Some c
     \<and> c \<in> set (positioned (filter available (courier_table d)))
     \<and> (\<forall>q \<in> set (positioned (filter available (courier_table d))).
           courier_distance la lo c \<le> courier_distance la lo q)"
proof -
  let ?A = "filter available (courier_table d)"
  from nearer_fold [of ?A la lo] ps obtain c where
    b: "fst (foldl (nearer la lo) (None, None) ?A) = Some c"
    and m: "c \<in> set (positioned ?A)"
    and a: "\<forall>q \<in> set (positioned ?A). courier_distance la lo c \<le> courier_distance la lo q"
    by blast
  have t: "truthy (Some la)" "truthy (Some lo)" using nz by (simp_all add: truthy_def)
  have p: "por_default (Some la) 0 = la" "por_default (Some lo) 0 = lo"
    using nz by (simp_all add: por_default_def)
  have "fst (assign_optimal_courier net d order) = Some c"
    using av rs t b by (simp add: assign_optimal_courier_def p Let_def)
  with m a show ?thesis by blast
qed

lemma assign_first:
  assumes av: "filter available (courier_table d) \<noteq> []"
    and rs: "resolve_order_location net d order = (la, lo, order1, d1)"
    and un: "\<not> truthy la \<or> \<not> truthy lo \<or> positioned (filter available (courier_table d)) = []"
  shows "fst (assign_optimal_courier net d order) = first (filter available (courier_table d))"
proof (cases "\<not> truthy la \<or> \<not> truthy lo")
  case True
  then show ?thesis using av rs by (simp add: assign_optimal_courier_def)
next
  case False
  with un have "positioned (filter available (courier_table d)) = []" by blast
  with nearer_fold [of "filter available (courier_table d)" "por_default la 0" "por_default lo 0"]
  have "foldl (nearer (por_default la 0) (por_default lo 0)) (None, None)
      (filter available (courier_table d)) = (None, None)"
    by auto
  then show ?thesis using av rs False by (simp add: assign_optimal_courier_def Let_def)
qed


text \<open>
  Claim C7, at an input where the code departs from it: a courier whose latitude or
  longitude is 0 counts as having no position. Of two available couriers, one on the
  equator at (0, 30) and one at (-1, 30), the first is nearer to an order at (0.5, 30), yet
  the second is returned. (That the result is none exactly when no courier is available is
  lemma \<open>assign_none_iff\<close>; that it is a nearest one of the couriers with non-zero
  coordinates, and the first available courier when there is none or the order has no
  location, are lemmas \<open>assign_nearest\<close> and \<open>assign_first\<close>.)
\<close>

theorem equator_courier_skipped:
  "filter available (courier_table equator_db) = [equator_courier, south_courier]
   \<and> current_latitude equator_courier = Some 0
   \<and> current_longitude equator_courier = Some 30
   \<and> latitude equator_order = Some 0.5
   \<and> longitude equator_order = Some 30
   \<and> calculate_distance 0 30 0.5 30 < calculate_distance (- 1) 30 0.5 30
   \<and> fst (assign_optimal_courier net equator_db equator_order) = Some south_courier"
proof -
  have "fst (assign_optimal_courier net equator_db equator_order) = Some south_courier"
    by (simp add: assign_optimal_courier_def equator_db_def equator_courier_def
        south_courier_def equator_order_def no_client_def nearer_def por_def por_default_def
        truthy_def resolve_order_location_def Let_def)
  with equator_nearer show ?thesis
    by (simp add: equator_db_def equator_courier_def south_courier_def equator_order_def)
qed

theorem equator_courier_skipped_witness:
  "fst (assign_optimal_courier geometry_down_net equator_db equator_order) = Some south_courier"
  using equator_courier_skipped [of geometry_down_net] by (elim conjE)

section \<open>Runs of the daily routing\<close>

lemma foldl_invariant:
  assumes "I s0" and "\<And>s x. I s \<Longrightarrow> x \<in> set xs \<Longrightarrow> I (f s x)"
  shows "I (foldl f s0 xs)"
  using assms by (induction xs arbitrary: s0) simp_all

subsection \<open>Saving an order\<close>

lemma save_order_tables [simp]:
  "courier_table (save_order x d) = courier_table d"
  "delivery_route_table (save_order x d) = delivery_route_table d"
  "route_order_table (save_order x d) = route_order_table d"
  by (simp_all add: save_order_def)

lemma save_order_mem: "x \<in> set (order_table (save_order x d))"
  by (auto simp: save_order_def)

lemma save_order_other:
  "order_id x \<noteq> i \<Longrightarrow>
   filter (\<lambda>r. order_id r = i) (order_table (save_order x d)) =
     filter (\<lambda>r. order_id r = i) (order_table d)"
proof -
  assume n: "order_id x \<noteq> i"
  have "filter (\<lambda>r. order_id r = i) (map (\<lambda>r. if order_id r = order_id x then x else r) rs)
      = filter (\<lambda>r. order_id r = i) rs" for rs
    using n by (induction rs) auto
  with n show ?thesis by (simp add: save_order_def)
qed

lemma order_courier_cong:
  "courier_table d' = courier_table d \<Longrightarrow> order_courier d' x = order_courier d x"
  by (simp add: order_courier_def split: option.splits)

lemma order_courier_Some:
  "order_courier d x = Some c \<Longrightarrow>
   order_courier_id x = Some (courier_id c) \<and> c \<in> set (courier_table d)"
  by (auto simp: order_courier_def find_Some_iff split: option.splits)

lemma order_courier_None:
  "order_courier d x = None \<Longrightarrow> order_courier_id x = Some k \<Longrightarrow>
   \<forall>c \<in> set (courier_table d). courier_id c \<noteq> k"
  by (auto simp: order_courier_def find_None_iff)

lemma available_courier_Some:
  "available_courier d k = Some c \<Longrightarrow>
   c \<in> set (courier_table d) \<and> courier_id c = k \<and> available c"
  by (auto simp: available_courier_def find_Some_iff)

lemma available_courier_None:
  "available_courier d k = None \<longleftrightarrow>
   (\<forall>c \<in> set (courier_table d). courier_id c = k \<longrightarrow> \<not> available c)"
  by (auto simp: available_courier_def find_None_iff)

lemma available_courier_cong:
  "courier_table d' = courier_table d \<Longrightarrow> available_courier d' k = available_courier d k"
  by (simp add: available_courier_def)

lemma relocated_fields:
  "relocated x y \<Longrightarrow>
   order_id y = order_id x \<and> created_date y = created_date x \<and> status y = status x
   \<and> order_courier_id y = order_courier_id x"
  unfolding relocated_def by (elim exE) simp

subsection \<open>Updating the estimate and assigning an order\<close>

lemma update_delivery_estimates_cases:
  obtains "update_delivery_estimates clk d x = (x, d)"
  | y where "update_delivery_estimates clk d x = (y, save_order y d)"
      and "order_id y = order_id x" and "created_date y = created_date x"
      and "status y = status x" and "order_courier_id y = order_courier_id x"
proof (cases "order_courier d x")
  case None
  then have "update_delivery_estimates clk d x = (x, d)"
    by (simp add: update_delivery_estimates_def)
  then show ?thesis by (rule that(1))
next
  case (Some c)
  let ?y = "x\<lparr>estimated_delivery_time :=
             Some (now_minutes clk + calculate_delivery_time clk d x None)\<rparr>"
  from Some have "update_delivery_estimates clk d x = (?y, save_order ?y d)"
    by (simp add: update_delivery_estimates_def Let_def)
  then show ?thesis by (rule that(2)) simp_all
qed

lemma assign_order_cases:
  obtains y where
    "assign_order clk c d x = save_order y d \<or> assign_order clk c d x = save_order y (save_order y d)"
    and "order_id y = order_id x" and "created_date y = created_date x"
    and "status y = ''assigned''" and "order_courier_id y = Some (courier_id c)"
proof -
  let ?x1 = "x\<lparr>order_courier_id := Some (courier_id c), status := ''assigned''\<rparr>"
  show ?thesis
  proof (rule update_delivery_estimates_cases [of clk d ?x1])
    assume u: "update_delivery_estimates clk d ?x1 = (?x1, d)"
    then have "assign_order clk c d x = save_order ?x1 d"
      by (simp add: assign_order_def Let_def)
    then have "assign_order clk c d x = save_order ?x1 d
        \<or> assign_order clk c d x = save_order ?x1 (save_order ?x1 d)" by (rule disjI1)
    then show ?thesis by (rule that) simp_all
  next
    fix y
    assume u: "update_delivery_estimates clk d ?x1 = (y, save_order y d)"
      and f: "order_id y = order_id ?x1" "created_date y = created_date ?x1"
        "status y = status ?x1" "order_courier_id y = order_courier_id ?x1"
    from u have "assign_order clk c d x = save_order y (save_order y d)"
      by (simp add: assign_order_def Let_def)
    then have a: "assign_order clk c d x = save_order y d
        \<or> assign_order clk c d x = save_order y (save_order y d)" by (rule disjI2)
    from f have "order_id y = order_id x" "created_date y = created_date x"
      "status y = ''assigned''" "order_courier_id y = Some (courier_id c)"
      by simp_all
    with a show ?thesis by (rule that)
  qed
qed

lemma assign_order_tables [simp]:
  "courier_table (assign_order clk c d x) = courier_table d"
  "delivery_route_table (assign_order clk c d x) = delivery_route_table d"
  "route_order_table (assign_order clk c d x) = route_order_table d"
proof -
  obtain y where "assign_order clk c d x = save_order y d
      \<or> assign_order clk c d x = save_order y (save_order y d)"
    by (rule assign_order_cases)
  then show "courier_table (assign_order clk c d x) = courier_table d"
    "delivery_route_table (assign_order clk c d x) = delivery_route_table d"
    "route_order_table (assign_order clk c d x) = route_order_table d"
    by auto
qed

lemma assign_order_other:
  assumes "order_id x \<noteq> i"
  shows "filter (\<lambda>r. order_id r = i) (order_table (assign_order clk c d x)) =
     filter (\<lambda>r. order_id r = i) (order_table d)"
proof -
  obtain y where a: "assign_order clk c d x = save_order y d
      \<or> assign_order clk c d x = save_order y (save_order y d)"
    and "order_id y = order_id x"
    by (rule assign_order_cases)
  with assms have "order_id y \<noteq> i" by simp
  with a show ?thesis by (auto simp: save_order_other)
qed

lemma assign_orders_tables [simp]:
  "courier_table (foldl (assign_order clk c) d os) = courier_table d"
  "delivery_route_table (foldl (assign_order clk c) d os) = delivery_route_table d"
  "route_order_table (foldl (assign_order clk c) d os) = route_order_table d"
  by (induction os arbitrary: d) simp_all

lemma assign_orders_other:
  "\<forall>z \<in> set os. order_id z \<noteq> i \<Longrightarrow>
   filter (\<lambda>r. order_id r = i) (order_table (foldl (assign_order clk c) d os)) =
     filter (\<lambda>r. order_id r = i) (order_table d)"
  by (induction os arbitrary: d) (simp_all add: assign_order_other)

lemma assign_orders_last:
  assumes "os \<noteq> []" and "\<forall>z \<in> set os. created_date z = date"
  shows "\<exists>y \<in> set (order_table (foldl (assign_order clk c) d os)).
     created_date y = date \<and> status y = ''assigned'' \<and> order_courier_id y = Some (courier_id c)"
proof -
  from assms(1) obtain os' z where os: "os = os' @ [z]"
    by (cases os rule: rev_cases) simp_all
  let ?d = "foldl (assign_order clk c) d os'"
  obtain y where a: "assign_order clk c ?d z = save_order y ?d
      \<or> assign_order clk c ?d z = save_order y (save_order y ?d)"
    and f: "created_date y = created_date z" "status y = ''assigned''"
      "order_courier_id y = Some (courier_id c)"
    by (rule assign_order_cases)
  from a have "y \<in> set (order_table (assign_order clk c ?d z))"
    by (auto simp: save_order_mem)
  moreover have "created_date y = date" using f(1) assms(2) os by simp
  ultimately show ?thesis using f(2,3) os by auto
qed

subsection \<open>Creating a route\<close>

lemma foldl_create_route_order_tables [simp]:
  "courier_table (foldl (create_route_order rid) d es) = courier_table d"
  "order_table (foldl (create_route_order rid) d es) = order_table d"
  "delivery_route_table (foldl (create_route_order rid) d es) = delivery_route_table d"
  by (simp_all add: foldl_create_route_order)

lemma create_delivery_route_cases:
  obtains e where "create_delivery_route s net clk c os name d = (Inl e, d)" and "os = []"
  | r d' where "create_delivery_route s net clk c os name d = (Inr r, d')"
      and "os \<noteq> []" and "route_courier r = courier_id c"
      and "courier_table d' = courier_table d" and "order_table d' = order_table d"
      and "delivery_route_table d' = delivery_route_table d @ [r]"
proof (cases "os = []")
  case True
  then have "create_delivery_route s net clk c os name d = (Inl (KeyError ''route_coordinates''), d)"
    by (simp add: create_delivery_route_def optimize_route_def Let_def)
  then show ?thesis using True by (rule that(1))
next
  case False
  then obtain coords where co: "result_route_coordinates (optimize_route s net c os) = Some coords"
    by (simp add: optimize_route_def Let_def)
  obtain r d' where cr: "create_delivery_route s net clk c os name d = (r, d')"
    by (cases "create_delivery_route s net clk c os name d")
  from cr co obtain r' where r: "r = Inr r'" and rc: "route_courier r' = courier_id c"
    and t: "courier_table d' = courier_table d" "order_table d' = order_table d"
      "delivery_route_table d' = delivery_route_table d @ [r']"
    by (auto simp: create_delivery_route_def Let_def)
  from cr [unfolded r] False rc t show ?thesis by (rule that(2))
qed

subsection \<open>Grouping\<close>

lemma group_append_keys:
  "fst ` set (group_append k z g) = insert k (fst ` set g)"
  by (auto simp: group_append_def image_iff split: if_splits prod.splits) force+

lemma group_append_member:
  assumes "(k, os) \<in> set (group_append k0 z g)" and "y \<in> set os"
  shows "(\<exists>os'. (k, os') \<in> set g \<and> y \<in> set os') \<or> (k = k0 \<and> y = z)"
  using assms by (auto simp: group_append_def split: if_splits)

lemma group_append_nonempty:
  assumes "(k, os) \<in> set (group_append k0 z g)" and "\<forall>(k', os') \<in> set g. os' \<noteq> []"
  shows "os \<noteq> []"
  using assms by (auto simp: group_append_def split: if_splits)

lemma group_step_cases:
  obtains c where "order_courier dk x = Some c"
      and "group_step net (g, dk) x = (group_append (courier_id c) x g, dk)"
  | c x1 d1 where "order_courier dk x = None"
      and "group_step net (g, dk) x = (group_append (courier_id c) x1 g, d1)"
      and "c \<in> set (courier_table dk)" and "available c"
      and "relocated x x1" and "d1 = dk \<or> d1 = save_order x1 dk"
  | "order_courier dk x = None" and "filter available (courier_table dk) = []"
      and "group_step net (g, dk) x = (g, dk)"
proof (cases "order_courier dk x")
  case (Some c)
  then have "group_step net (g, dk) x = (group_append (courier_id c) x g, dk)"
    by (simp add: group_step_def)
  with Some show ?thesis by (rule that(1))
next
  case None
  show ?thesis
  proof (cases "filter available (courier_table dk) = []")
    case True
    then have "group_step net (g, dk) x = (g, dk)"
      using None by (simp add: group_step_def assign_unavailable)
    with None True show ?thesis by (rule that(3))
  next
    case False
    then obtain c x1 d1 where a: "assign_optimal_courier net dk x = (Some c, x1, d1)"
      and p: "c \<in> set (courier_table dk)" "available c" "relocated x x1"
        "d1 = dk \<or> d1 = save_order x1 dk"
      by (rule assign_available)
    from a None have "group_step net (g, dk) x = (group_append (courier_id c) x1 g, d1)"
      by (simp add: group_step_def)
    with None show ?thesis using p by (rule that(2))
  qed
qed

lemma group_step_courier_table:
  "courier_table (snd (group_step net (g, dk) x)) = courier_table dk"
  by (rule group_step_cases [of dk x net g]) auto

lemma group_step_route_tables:
  "delivery_route_table (snd (group_step net (g, dk) x)) = delivery_route_table dk"
  "route_order_table (snd (group_step net (g, dk) x)) = route_order_table dk"
  by (rule group_step_cases [of dk x net g]; auto)+

lemma group_step_keys_mono:
  "fst ` set g \<subseteq> fst ` set (fst (group_step net (g, dk) x))"
  by (rule group_step_cases [of dk x net g]) (auto simp: group_append_keys)

lemma group_fold_tables:
  "courier_table (snd (foldl (group_step net) (g, dk) pending)) = courier_table dk"
  "delivery_route_table (snd (foldl (group_step net) (g, dk) pending)) = delivery_route_table dk"
  "route_order_table (snd (foldl (group_step net) (g, dk) pending)) = route_order_table dk"
proof -
  let ?I = "\<lambda>st :: groups \<times> db. courier_table (snd st) = courier_table dk
      \<and> delivery_route_table (snd st) = delivery_route_table dk
      \<and> route_order_table (snd st) = route_order_table dk"
  have "?I (foldl (group_step net) (g, dk) pending)"
  proof (rule foldl_invariant)
    show "?I (g, dk)" by simp
  next
    fix st x assume "?I st"
    then show "?I (group_step net st x)"
      using group_step_courier_table [of net "fst st" "snd st" x]
        group_step_route_tables [of net "fst st" "snd st" x]
      by simp
  qed
  then show "courier_table (snd (foldl (group_step net) (g, dk) pending)) = courier_table dk"
    "delivery_route_table (snd (foldl (group_step net) (g, dk) pending)) = delivery_route_table dk"
    "route_order_table (snd (foldl (group_step net) (g, dk) pending)) = route_order_table dk"
    by simp_all
qed

lemma group_fold_keys_mono:
  "fst ` set g \<subseteq> fst ` set (fst (foldl (group_step net) (g, dk) pending))"
proof (induction pending arbitrary: g dk)
  case Nil
  show ?case by simp
next
  case (Cons x xs)
  obtain g1 d1 where s: "group_step net (g, dk) x = (g1, d1)"
    by (cases "group_step net (g, dk) x")
  have "fst ` set g \<subseteq> fst ` set g1"
    using group_step_keys_mono [of g net dk x] s by simp
  also have "\<dots> \<subseteq> fst ` set (fst (foldl (group_step net) (g1, d1) xs))"
    by (rule Cons.IH)
  finally show ?case by (simp add: s)
qed

lemma group_fold_key_present:
  assumes "x \<in> set pending" and "order_courier dk x = Some c"
  shows "courier_id c \<in> fst ` set (fst (foldl (group_step net) (g, dk) pending))"
  using assms
proof (induction pending arbitrary: g dk)
  case Nil
  then show ?case by simp
next
  case (Cons y ys)
  obtain g1 d1 where s: "group_step net (g, dk) y = (g1, d1)"
    by (cases "group_step net (g, dk) y")
  have ct: "courier_table d1 = courier_table dk"
    using group_step_courier_table [of net g dk y] s by simp
  show ?case
  proof (cases "x = y")
    case True
    with Cons.prems(2) have "group_step net (g, dk) y = (group_append (courier_id c) y g, dk)"
      by (simp add: group_step_def)
    with s have "courier_id c \<in> fst ` set g1"
      by (auto simp: group_append_keys)
    with group_fold_keys_mono [of g1 net d1 ys] show ?thesis by (auto simp: s)
  next
    case False
    with Cons.prems(1) have "x \<in> set ys" by simp
    moreover have "order_courier d1 x = Some c"
      using Cons.prems(2) order_courier_cong [OF ct] by simp
    ultimately have "courier_id c \<in> fst ` set (fst (foldl (group_step net) (g1, d1) ys))"
      by (rule Cons.IH)
    then show ?thesis by (simp add: s)
  qed
qed

lemma group_fold_members:
  assumes "\<forall>x \<in> set pending. created_date x = date"
  shows "\<forall>(k, os) \<in> set (fst (foldl (group_step net) ([], dk) pending)).
     os \<noteq> [] \<and> (\<forall>z \<in> set os. created_date z = date)"
proof -
  let ?I = "\<lambda>st :: groups \<times> db. \<forall>(k, os) \<in> set (fst st). os \<noteq> [] \<and> (\<forall>z \<in> set os. created_date z = date)"
  have "?I (foldl (group_step net) ([], dk) pending)"
  proof (rule foldl_invariant)
    show "?I ([], dk)" by simp
  next
    fix st x assume I: "?I st" and x: "x \<in> set pending"
    obtain g d1 where st: "st = (g, d1)" by (cases st)
    from I st have ne: "\<forall>(k', os') \<in> set g. os' \<noteq> []" by auto
    from I st have dt: "\<And>k os z. (k, os) \<in> set g \<Longrightarrow> z \<in> set os \<Longrightarrow> created_date z = date"
      by auto
    from x assms have xd: "created_date x = date" by simp
    have step: "?I (group_append k z g, d2)" if "created_date z = date" for k z d2
    proof -
      have "os \<noteq> [] \<and> (\<forall>y \<in> set os. created_date y = date)"
        if m: "(k', os) \<in> set (group_append k z g)" for k' os
      proof
        show "os \<noteq> []" using m ne by (rule group_append_nonempty)
        show "\<forall>y \<in> set os. created_date y = date"
        proof
          fix y assume "y \<in> set os"
          with m have "(\<exists>os'. (k', os') \<in> set g \<and> y \<in> set os') \<or> (k' = k \<and> y = z)"
            by (rule group_append_member)
          then show "created_date y = date"
            using dt \<open>created_date z = date\<close> by auto
        qed
      qed
      then show ?thesis by auto
    qed
    show "?I (group_step net st x)"
      unfolding st
    proof (rule group_step_cases [of d1 x net g])
      fix c assume "group_step net (g, d1) x = (group_append (courier_id c) x g, d1)"
      then show "?I (group_step net (g, d1) x)" using step [OF xd] by simp
    next
      fix c x1 d2
      assume "group_step net (g, d1) x = (group_append (courier_id c) x1 g, d2)"
        and "relocated x x1"
      then show "?I (group_step net (g, d1) x)"
        using step [of x1] xd relocated_fields [of x x1] by simp
    next
      assume "group_step net (g, d1) x = (g, d1)"
      then show "?I (group_step net (g, d1) x)" using I st by simp
    qed
  qed
  then show ?thesis .
qed

lemma route_groups_skip:
  "\<forall>(k, os) \<in> set grouped. available_courier d k = None \<Longrightarrow>
   route_groups s net clk grouped routes d = (Inr routes, d)"
proof (induction grouped)
  case Nil
  show ?case by simp
next
  case (Cons g grouped)
  obtain k os where g: "g = (k, os)" by (cases g)
  from Cons.prems g have "find (\<lambda>c. courier_id c = k \<and> available c) (courier_table d) = None"
    by (simp add: available_courier_def)
  moreover from Cons have "route_groups s net clk grouped routes d = (Inr routes, d)"
    by simp
  ultimately show ?case by (simp add: g)
qed

lemma route_groups_result:
  assumes "\<forall>(k, os) \<in> set grouped. os \<noteq> [] \<and> (\<forall>z \<in> set os. created_date z = date)"
  shows "\<exists>rs d'. route_groups s net clk grouped routes d = (Inr (routes @ rs), d')
     \<and> courier_table d' = courier_table d
     \<and> length rs = length (filter (\<lambda>(k, os). available_courier d k \<noteq> None) grouped)
     \<and> ((\<exists>(k, os) \<in> set grouped. available_courier d k \<noteq> None) \<longrightarrow>
          (\<exists>y \<in> set (order_table d'). created_date y = date \<and> status y = ''assigned''
             \<and> (\<exists>c \<in> set (courier_table d). available c
                   \<and> order_courier_id y = Some (courier_id c))))"
  using assms
proof (induction grouped arbitrary: routes d)
  case Nil
  show ?case by simp
next
  case (Cons g grouped)
  obtain k os where g: "g = (k, os)" by (cases g)
  from Cons.prems g have os: "os \<noteq> []" "\<forall>z \<in> set os. created_date z = date"
    and rest: "\<forall>(k, os) \<in> set grouped. os \<noteq> [] \<and> (\<forall>z \<in> set os. created_date z = date)"
    by auto
  show ?case
  proof (cases "available_courier d k")
    case None
    then have e: "route_groups s net clk (g # grouped) routes d =
        route_groups s net clk grouped routes d"
      by (simp add: g available_courier_def)
    from Cons.IH [OF rest, of routes d] None show ?thesis
      unfolding e by (simp add: g)
  next
    case (Some c)
    note c = available_courier_Some [OF Some]
    have "\<exists>r d1. create_delivery_route s net clk c os None d = (Inr r, d1)
        \<and> courier_table d1 = courier_table d"
    proof (rule create_delivery_route_cases [of s net clk c os None d])
      fix e assume "create_delivery_route s net clk c os None d = (Inl e, d)" and "os = []"
      with os(1) show ?thesis by simp
    next
      fix r d'
      assume "create_delivery_route s net clk c os None d = (Inr r, d')"
        and "os \<noteq> []" and "route_courier r = courier_id c"
        and "courier_table d' = courier_table d" and "order_table d' = order_table d"
        and "delivery_route_table d' = delivery_route_table d @ [r]"
      then show ?thesis by blast
    qed
    then obtain r d1 where cr: "create_delivery_route s net clk c os None d = (Inr r, d1)"
      and t1: "courier_table d1 = courier_table d"
      by blast
    let ?d2 = "foldl (assign_order clk c) d1 os"
    have t2: "courier_table ?d2 = courier_table d" using t1 by simp
    have e: "route_groups s net clk (g # grouped) routes d =
        route_groups s net clk grouped (routes @ [r]) ?d2"
      using Some cr by (simp add: g available_courier_def)
    have av: "available_courier ?d2 k' = available_courier d k'" for k'
      using t2 by (rule available_courier_cong)
    from Cons.IH [OF rest, of "routes @ [r]" ?d2]
    obtain rs d' where
      rg: "route_groups s net clk grouped (routes @ [r]) ?d2 = (Inr ((routes @ [r]) @ rs), d')"
      and t3: "courier_table d' = courier_table ?d2"
      and ln: "length rs = length (filter (\<lambda>(k, os). available_courier d k \<noteq> None) grouped)"
      and dn: "(\<exists>(k, os) \<in> set grouped. available_courier d k \<noteq> None) \<longrightarrow>
          (\<exists>y \<in> set (order_table d'). created_date y = date \<and> status y = ''assigned''
             \<and> (\<exists>c \<in> set (courier_table d). available c
                   \<and> order_courier_id y = Some (courier_id c)))"
      unfolding av t2 by blast
    have row: "\<exists>y \<in> set (order_table d'). created_date y = date \<and> status y = ''assigned''
             \<and> (\<exists>c \<in> set (courier_table d). available c
                   \<and> order_courier_id y = Some (courier_id c))"
    proof (cases "\<exists>(k, os) \<in> set grouped. available_courier d k \<noteq> None")
      case True
      with dn show ?thesis by blast
    next
      case False
      then have "\<forall>(k, os) \<in> set grouped. available_courier ?d2 k = None"
        unfolding av by auto
      then have "route_groups s net clk grouped (routes @ [r]) ?d2 = (Inr (routes @ [r]), ?d2)"
        by (rule route_groups_skip)
      with rg have d': "d' = ?d2" by simp
      from assign_orders_last [OF os, of clk c d1]
      obtain y where "y \<in> set (order_table ?d2)" "created_date y = date"
        "status y = ''assigned''" "order_courier_id y = Some (courier_id c)"
        by blast
      with c show ?thesis unfolding d' by blast
    qed
    have "route_groups s net clk (g # grouped) routes d = (Inr (routes @ (r # rs)), d')"
      unfolding e rg by simp
    moreover have "courier_table d' = courier_table d" using t3 t2 by simp
    moreover have "length (r # rs) =
        length (filter (\<lambda>(k, os). available_courier d k \<noteq> None) (g # grouped))"
      using ln Some by (simp add: g)
    ultimately show ?thesis using row by blast
  qed
qed

lemma pending_orders_date: "\<forall>x \<in> set (pending_orders d date). created_date x = date"
  by (simp add: pending_orders_def)

lemma run_result:
  "\<exists>rs d'. create_optimized_routes_for_day s net clk date_arg d = (Inr rs, d')
     \<and> courier_table d' = courier_table d
     \<and> length rs = length (routed_groups net d (run_date clk date_arg))
     \<and> (rs \<noteq> [] \<longrightarrow>
          (\<exists>y \<in> set (order_table d'). created_date y = run_date clk date_arg
             \<and> status y = ''assigned''
             \<and> (\<exists>c \<in> set (courier_table d). available c
                   \<and> order_courier_id y = Some (courier_id c))))"
proof -
  let ?date = "run_date clk date_arg"
  let ?G = "group_orders_for_routing net d (pending_orders d ?date)"
  have run: "create_optimized_routes_for_day s net clk date_arg d =
      route_groups s net clk (fst ?G) [] (snd ?G)"
    by (simp add: create_optimized_routes_for_day_def run_date_def Let_def split_def)
  have m: "\<forall>(k, os) \<in> set (fst ?G). os \<noteq> [] \<and> (\<forall>z \<in> set os. created_date z = ?date)"
    unfolding group_orders_for_routing_def
    using pending_orders_date by (rule group_fold_members)
  have t: "courier_table (snd ?G) = courier_table d"
    unfolding group_orders_for_routing_def by (rule group_fold_tables)
  have av: "available_courier (snd ?G) k = available_courier d k" for k
    using t by (rule available_courier_cong)
  from route_groups_result [OF m, of s net clk "[]" "snd ?G"]
  obtain rs d' where rg: "route_groups s net clk (fst ?G) [] (snd ?G) = (Inr rs, d')"
    and t': "courier_table d' = courier_table d"
    and ln: "length rs = length (filter (\<lambda>(k, os). available_courier d k \<noteq> None) (fst ?G))"
    and dn: "(\<exists>(k, os) \<in> set (fst ?G). available_courier d k \<noteq> None) \<longrightarrow>
          (\<exists>y \<in> set (order_table d'). created_date y = ?date \<and> status y = ''assigned''
             \<and> (\<exists>c \<in> set (courier_table d). available c
                   \<and> order_courier_id y = Some (courier_id c)))"
    unfolding av t by auto
  have "rs \<noteq> [] \<longrightarrow> (\<exists>(k, os) \<in> set (fst ?G). available_courier d k \<noteq> None)"
  proof
    assume "rs \<noteq> []"
    with ln have "filter (\<lambda>(k, os). available_courier d k \<noteq> None) (fst ?G) \<noteq> []" by auto
    then show "\<exists>(k, os) \<in> set (fst ?G). available_courier d k \<noteq> None"
      by (auto simp: filter_empty_conv)
  qed
  with dn have "rs \<noteq> [] \<longrightarrow>
          (\<exists>y \<in> set (order_table d'). created_date y = ?date \<and> status y = ''assigned''
             \<and> (\<exists>c \<in> set (courier_table d). available c
                   \<and> order_courier_id y = Some (courier_id c)))"
    by blast
  with rg t' ln show ?thesis unfolding run routed_groups_def by blast
qed

lemma rerun_routes:
  assumes "create_optimized_routes_for_day s net clk date_arg d = (Inr rs, d1)"
    and "rs \<noteq> []"
    and "run_date clk2 date_arg2 = run_date clk date_arg"
  shows "\<exists>rs2 d2. create_optimized_routes_for_day s2 net2 clk2 date_arg2 d1 = (Inr rs2, d2)
     \<and> rs2 \<noteq> [] \<and> pending_orders d1 (run_date clk date_arg) \<noteq> []"
proof -
  let ?date = "run_date clk date_arg"
  from run_result [of s net clk date_arg d] assms(1,2)
  obtain y c where t1: "courier_table d1 = courier_table d"
    and y: "y \<in> set (order_table d1)" "created_date y = ?date" "status y = ''assigned''"
    and c: "c \<in> set (courier_table d)" "available c" "order_courier_id y = Some (courier_id c)"
    by auto
  from y have py: "y \<in> set (pending_orders d1 ?date)"
    by (simp add: pending_orders_def)
  have "order_courier d1 y \<noteq> None"
  proof
    assume "order_courier d1 y = None"
    then have "\<forall>c' \<in> set (courier_table d1). courier_id c' \<noteq> courier_id c"
      using c(3) by (rule order_courier_None)
    with c(1) t1 show False by auto
  qed
  then obtain c0 where c0: "order_courier d1 y = Some c0" by blast
  from order_courier_Some [OF c0] c(3) have k: "courier_id c0 = courier_id c" by simp
  let ?G = "group_orders_for_routing net2 d1 (pending_orders d1 ?date)"
  have "courier_id c0 \<in> fst ` set (fst ?G)"
    unfolding group_orders_for_routing_def using py c0 by (rule group_fold_key_present)
  then obtain os where g: "(courier_id c, os) \<in> set (fst ?G)"
    unfolding k by auto
  have "available_courier d1 (courier_id c) \<noteq> None"
    using c(1,2) t1 by (auto simp: available_courier_None)
  with g have "(courier_id c, os) \<in> set (routed_groups net2 d1 ?date)"
    by (simp add: routed_groups_def)
  then have ne: "routed_groups net2 d1 ?date \<noteq> []" by auto
  from run_result [of s2 net2 clk2 date_arg2 d1]
  obtain rs2 d2 where "create_optimized_routes_for_day s2 net2 clk2 date_arg2 d1 = (Inr rs2, d2)"
    and "length rs2 = length (routed_groups net2 d1 ?date)"
    unfolding assms(3) by blast
  with ne py show ?thesis by auto
qed

lemma distinct_filter_single:
  assumes "distinct (map f xs)" and "x \<in> set xs"
  shows "filter (\<lambda>r. f r = f x) xs = [x]"
  using assms
proof (induction xs)
  case Nil
  then show ?case by simp
next
  case (Cons a xs)
  show ?case
  proof (cases "a = x")
    case True
    from Cons.prems(1) have "f a \<notin> f ` set xs" by simp
    then have "\<forall>r \<in> set xs. f r \<noteq> f a" by (metis imageI)
    then have "filter (\<lambda>r. f r = f a) xs = []" by (simp add: filter_empty_conv)
    with True show ?thesis by simp
  next
    case False
    with Cons.prems have x: "x \<in> set xs" and d: "distinct (map f xs)" by simp_all
    from Cons.prems(1) have "f a \<notin> f ` set xs" by simp
    with x have "f a \<noteq> f x" by (metis imageI)
    with Cons.IH [OF d x] show ?thesis by simp
  qed
qed

lemma group_fold_untouched:
  assumes dist: "distinct (map order_id (order_table d))"
    and ord: "ord \<in> set (order_table d)"
    and sub: "set pending \<subseteq> set (order_table d)"
    and oc: "order_courier_id ord = Some cid"
    and ex: "\<exists>c \<in> set (courier_table d). courier_id c = cid"
  shows "filter (\<lambda>r. order_id r = order_id ord)
       (order_table (snd (foldl (group_step net) ([], d) pending))) =
     filter (\<lambda>r. order_id r = order_id ord) (order_table d)
   \<and> (\<forall>(k, os) \<in> set (fst (foldl (group_step net) ([], d) pending)).
        \<forall>z \<in> set os. order_id z = order_id ord \<longrightarrow> k = cid)"
proof -
  let ?keep = "\<lambda>dk. filter (\<lambda>r. order_id r = order_id ord) (order_table dk) =
     filter (\<lambda>r. order_id r = order_id ord) (order_table d)"
  let ?own = "\<lambda>g :: groups. \<forall>(k, os) \<in> set g. \<forall>z \<in> set os. order_id z = order_id ord \<longrightarrow> k = cid"
  let ?I = "\<lambda>st :: groups \<times> db.
     courier_table (snd st) = courier_table d \<and> ?keep (snd st) \<and> ?own (fst st)"
  have same: "x = ord" if "x \<in> set pending" "order_id x = order_id ord" for x
  proof -
    from dist have "inj_on order_id (set (order_table d))" by (simp add: distinct_map)
    moreover from that(1) sub have "x \<in> set (order_table d)" by auto
    ultimately show ?thesis using ord that(2) by (auto dest: inj_onD)
  qed
  have "?I (foldl (group_step net) ([], d) pending)"
  proof (rule foldl_invariant)
    show "?I ([], d)" by simp
  next
    fix st x assume I: "?I st" and x: "x \<in> set pending"
    obtain g dk where st: "st = (g, dk)" by (cases st)
    from I st have ct: "courier_table dk = courier_table d" and keep: "?keep dk"
      and own: "\<And>k os z. (k, os) \<in> set g \<Longrightarrow> z \<in> set os \<Longrightarrow> order_id z = order_id ord
        \<Longrightarrow> k = cid"
      by auto
    have own_step: "?own (group_append k0 z0 g)" if "order_id z0 = order_id ord \<Longrightarrow> k0 = cid"
      for k0 z0
    proof -
      have "k = cid" if m: "(k, os) \<in> set (group_append k0 z0 g)" and z: "z \<in> set os"
        and i: "order_id z = order_id ord" for k os z
      proof -
        from m z have "(\<exists>os'. (k, os') \<in> set g \<and> z \<in> set os') \<or> (k = k0 \<and> z = z0)"
          by (rule group_append_member)
        then show ?thesis using own i \<open>order_id z0 = order_id ord \<Longrightarrow> k0 = cid\<close> by auto
      qed
      then show ?thesis by auto
    qed
    show "?I (group_step net st x)"
      unfolding st
    proof (rule group_step_cases [of dk x net g])
      fix c
      assume c: "order_courier dk x = Some c"
        and s: "group_step net (g, dk) x = (group_append (courier_id c) x g, dk)"
      have "courier_id c = cid" if "order_id x = order_id ord"
      proof -
        from same [OF x that] c have "order_courier dk ord = Some c" by simp
        from order_courier_Some [OF this] oc show ?thesis by simp
      qed
      then have "?own (group_append (courier_id c) x g)" by (rule own_step)
      with ct keep show "?I (group_step net (g, dk) x)" unfolding s by simp
    next
      fix c x1 d1
      assume n: "order_courier dk x = None"
        and s: "group_step net (g, dk) x = (group_append (courier_id c) x1 g, d1)"
        and r: "relocated x x1" and d1: "d1 = dk \<or> d1 = save_order x1 dk"
      have ni: "order_id x \<noteq> order_id ord"
      proof
        assume "order_id x = order_id ord"
        with same [OF x] n have "order_courier dk ord = None" by simp
        then have "\<forall>c \<in> set (courier_table dk). courier_id c \<noteq> cid"
          using oc by (rule order_courier_None)
        with ex ct show False by auto
      qed
      with relocated_fields [OF r] have n1: "order_id x1 \<noteq> order_id ord" by simp
      then have "?own (group_append (courier_id c) x1 g)" by (intro own_step) simp
      moreover from d1 keep n1 have "?keep d1" by (auto simp: save_order_other)
      moreover from d1 ct have "courier_table d1 = courier_table d" by auto
      ultimately show "?I (group_step net (g, dk) x)" unfolding s by simp
    next
      assume "group_step net (g, dk) x = (g, dk)"
      with I st show "?I (group_step net (g, dk) x)" by simp
    qed
  qed
  then show ?thesis by blast
qed

lemma route_groups_untouched:
  assumes "available_courier d cid = None"
    and "\<forall>(k, os) \<in> set grouped. \<forall>z \<in> set os. order_id z = oid \<longrightarrow> k = cid"
    and "route_groups s net clk grouped routes d = (res, d')"
  shows "filter (\<lambda>r. order_id r = oid) (order_table d') =
       filter (\<lambda>r. order_id r = oid) (order_table d)
     \<and> filter (\<lambda>r. route_courier r = cid) (delivery_route_table d') =
       filter (\<lambda>r. route_courier r = cid) (delivery_route_table d)
     \<and> (\<forall>rs. res = Inr rs \<longrightarrow> (\<forall>r \<in> set rs. r \<in> set routes \<or> route_courier r \<noteq> cid))"
  using assms
proof (induction grouped arbitrary: routes d)
  case Nil
  from Nil.prems(3) have "res = Inr routes" and "d' = d" by simp_all
  then show ?case by simp
next
  case (Cons g grouped)
  obtain k os where g: "g = (k, os)" by (cases g)
  from Cons.prems(2) g
  have own: "\<forall>z \<in> set os. order_id z = oid \<longrightarrow> k = cid"
    and rest: "\<forall>(k, os) \<in> set grouped. \<forall>z \<in> set os. order_id z = oid \<longrightarrow> k = cid"
    by auto
  show ?case
  proof (cases "available_courier d k")
    case None
    then have "route_groups s net clk (g # grouped) routes d =
        route_groups s net clk grouped routes d"
      by (simp add: g available_courier_def)
    with Cons.prems(3) have "route_groups s net clk grouped routes d = (res, d')" by simp
    with Cons.prems(1) rest show ?thesis by (rule Cons.IH)
  next
    case (Some c)
    note c = available_courier_Some [OF Some]
    have kc: "k \<noteq> cid"
    proof
      assume "k = cid"
      with Some Cons.prems(1) show False by simp
    qed
    with own have ids: "\<forall>z \<in> set os. order_id z \<noteq> oid" by auto
    show ?thesis
    proof (rule create_delivery_route_cases [of s net clk c os None d])
      fix e assume "create_delivery_route s net clk c os None d = (Inl e, d)" and "os = []"
      with Some have "route_groups s net clk (g # grouped) routes d = (Inl e, d)"
        by (simp add: g available_courier_def)
      with Cons.prems(3) have "res = Inl e" and "d' = d" by simp_all
      then show ?thesis by simp
    next
      fix r d1
      assume cr: "create_delivery_route s net clk c os None d = (Inr r, d1)"
        and "os \<noteq> []" and rc: "route_courier r = courier_id c"
        and t1: "courier_table d1 = courier_table d" "order_table d1 = order_table d"
          "delivery_route_table d1 = delivery_route_table d @ [r]"
      let ?d2 = "foldl (assign_order clk c) d1 os"
      from Some cr have "route_groups s net clk (g # grouped) routes d =
          route_groups s net clk grouped (routes @ [r]) ?d2"
        by (simp add: g available_courier_def)
      with Cons.prems(3)
      have rg: "route_groups s net clk grouped (routes @ [r]) ?d2 = (res, d')" by simp
      have "courier_table ?d2 = courier_table d" using t1(1) by simp
      then have "available_courier ?d2 cid = available_courier d cid"
        by (rule available_courier_cong)
      with Cons.prems(1) have "available_courier ?d2 cid = None" by simp
      note ih = Cons.IH [OF this rest rg]
      from ih have a: "filter (\<lambda>r. order_id r = oid) (order_table d') =
          filter (\<lambda>r. order_id r = oid) (order_table ?d2)"
        by (elim conjE)
      from ih have b: "filter (\<lambda>r. route_courier r = cid) (delivery_route_table d') =
          filter (\<lambda>r. route_courier r = cid) (delivery_route_table ?d2)"
        by (elim conjE)
      from ih have e: "\<forall>rs. res = Inr rs \<longrightarrow>
          (\<forall>r' \<in> set rs. r' \<in> set (routes @ [r]) \<or> route_courier r' \<noteq> cid)"
        by (elim conjE)
      have rne: "route_courier r \<noteq> cid" using rc c kc by simp
      have a2: "filter (\<lambda>r. order_id r = oid) (order_table ?d2) =
          filter (\<lambda>r. order_id r = oid) (order_table d)"
        using assign_orders_other [OF ids, of clk c d1] by (simp only: t1(2))
      have "delivery_route_table ?d2 = delivery_route_table d @ [r]"
        by (simp only: assign_orders_tables t1(3))
      then have b2: "filter (\<lambda>r. route_courier r = cid) (delivery_route_table ?d2) =
          filter (\<lambda>r. route_courier r = cid) (delivery_route_table d)"
        using rne by simp
      have e2: "\<forall>rs. res = Inr rs \<longrightarrow>
          (\<forall>r' \<in> set rs. r' \<in> set routes \<or> route_courier r' \<noteq> cid)"
      proof (intro allI impI ballI)
        fix rs r' assume "res = Inr rs" and "r' \<in> set rs"
        with e have "r' \<in> set (routes @ [r]) \<or> route_courier r' \<noteq> cid" by blast
        then show "r' \<in> set routes \<or> route_courier r' \<noteq> cid" using rne by auto
      qed
      from a a2 have a3: "filter (\<lambda>r. order_id r = oid) (order_table d') =
          filter (\<lambda>r. order_id r = oid) (order_table d)" by (rule trans)
      from b b2 have b3: "filter (\<lambda>r. route_courier r = cid) (delivery_route_table d') =
          filter (\<lambda>r. route_courier r = cid) (delivery_route_table d)" by (rule trans)
      from a3 b3 e2 show ?thesis by (intro conjI)
    qed
  qed
qed

text \<open>
  Claim C10. In a run of \<open>create_optimized_routes_for_day\<close> over a database whose order
  primary keys are distinct, take a pending order whose courier exists but is not available.
  Its group is skipped: the run returns normally, no route of that courier is among the
  routes returned or added to the route table, and the order's row is after the run what it
  was before it, so its status, courier and estimated delivery time are unchanged.
\<close>

theorem unavailable_courier_group_skipped:
  assumes dist: "distinct (map order_id (order_table d))"
    and ord: "ord \<in> set (pending_orders d (run_date clk date_arg))"
    and oc: "order_courier_id ord = Some cid"
    and ex: "\<exists>c \<in> set (courier_table d). courier_id c = cid"
    and na: "\<forall>c \<in> set (courier_table d). courier_id c = cid \<longrightarrow> \<not> available c"
    and run: "create_optimized_routes_for_day s net clk date_arg d = (res, d')"
  shows "filter (\<lambda>r. order_id r = order_id ord) (order_table d') = [ord]
     \<and> filter (\<lambda>r. route_courier r = cid) (delivery_route_table d') =
         filter (\<lambda>r. route_courier r = cid) (delivery_route_table d)
     \<and> (\<exists>rs. res = Inr rs \<and> (\<forall>r \<in> set rs. route_courier r \<noteq> cid))"
proof -
  let ?date = "run_date clk date_arg"
  let ?P = "pending_orders d ?date"
  let ?G = "group_orders_for_routing net d ?P"
  have sub: "set ?P \<subseteq> set (order_table d)" by (auto simp: pending_orders_def)
  with ord have om: "ord \<in> set (order_table d)" by auto
  have rn: "route_groups s net clk (fst ?G) [] (snd ?G) = (res, d')"
    using run by (simp add: create_optimized_routes_for_day_def run_date_def Let_def split_def)
  from group_fold_untouched [OF dist om sub oc ex, of net]
  have k1: "filter (\<lambda>r. order_id r = order_id ord) (order_table (snd ?G)) =
      filter (\<lambda>r. order_id r = order_id ord) (order_table d)"
    and own: "\<forall>(k, os) \<in> set (fst ?G). \<forall>z \<in> set os. order_id z = order_id ord \<longrightarrow> k = cid"
    unfolding group_orders_for_routing_def by blast+
  have t: "courier_table (snd ?G) = courier_table d"
    "delivery_route_table (snd ?G) = delivery_route_table d"
    unfolding group_orders_for_routing_def by (rule group_fold_tables)+
  have "available_courier d cid = None" using na by (simp add: available_courier_None)
  moreover have "available_courier (snd ?G) cid = available_courier d cid"
    using t(1) by (rule available_courier_cong)
  ultimately have av: "available_courier (snd ?G) cid = None" by simp
  from route_groups_untouched [OF av own rn]
  have k2: "filter (\<lambda>r. order_id r = order_id ord) (order_table d') =
      filter (\<lambda>r. order_id r = order_id ord) (order_table (snd ?G))"
    and k3: "filter (\<lambda>r. route_courier r = cid) (delivery_route_table d') =
      filter (\<lambda>r. route_courier r = cid) (delivery_route_table (snd ?G))"
    and k4: "\<forall>rs. res = Inr rs \<longrightarrow> (\<forall>r \<in> set rs. r \<in> set [] \<or> route_courier r \<noteq> cid)"
    by blast+
  from run_result [of s net clk date_arg d] run obtain rs where rs: "res = Inr rs" by auto
  have "filter (\<lambda>r. order_id r = order_id ord) (order_table d') = [ord]"
    unfolding k2 k1 using dist om by (rule distinct_filter_single)
  moreover have "filter (\<lambda>r. route_courier r = cid) (delivery_route_table d') =
         filter (\<lambda>r. route_courier r = cid) (delivery_route_table d)"
    unfolding k3 t(2) ..
  moreover have "\<exists>rs. res = Inr rs \<and> (\<forall>r \<in> set rs. route_courier r \<noteq> cid)"
    using rs k4 by auto
  ultimately show ?thesis by blast
qed

theorem unavailable_courier_group_skipped_witness:
  "distinct (map order_id (order_table held_db))
   \<and> held_order \<in> set (pending_orders held_db (run_date demo_clock None))
   \<and> order_courier_id held_order = Some 7
   \<and> off_courier \<in> set (courier_table held_db) \<and> courier_id off_courier = 7
   \<and> \<not> available off_courier
   \<and> filter (\<lambda>r. order_id r = order_id held_order)
       (order_table (snd (create_optimized_routes_for_day disabled_settings geometry_down_net
          demo_clock None held_db))) = [held_order]"
proof -
  let ?run = "create_optimized_routes_for_day disabled_settings geometry_down_net
          demo_clock None held_db"
  have 1: "distinct (map order_id (order_table held_db))"
    by (simp add: held_db_def held_order_def urgent_order_def)
  have 2: "held_order \<in> set (pending_orders held_db (run_date demo_clock None))"
    by (simp add: pending_orders_def held_db_def held_order_def run_date_def demo_clock_def)
  have 3: "order_courier_id held_order = Some 7" by (simp add: held_order_def)
  have 4: "\<exists>c \<in> set (courier_table held_db). courier_id c = 7"
    by (simp add: held_db_def off_courier_def)
  have 5: "\<forall>c \<in> set (courier_table held_db). courier_id c = 7 \<longrightarrow> \<not> available c"
    by (simp add: held_db_def off_courier_def car_courier_def)
  have 6: "?run = (fst ?run, snd ?run)" by simp
  from unavailable_courier_group_skipped [OF 1 2 3 4 5 6]
  have "filter (\<lambda>r. order_id r = order_id held_order) (order_table (snd ?run)) = [held_order]"
    by (elim conjE)
  with 1 2 3 show ?thesis by (simp add: held_db_def off_courier_def)
qed

text \<open>
  Claim C3, as amended. A run leaves the orders it routes in status \<open>assigned\<close>, which
  is still eligible. So when a run that created at least one route is followed by a second
  run for the same date, neither run raises, some order of that date is still eligible
  after the first run, and the second run creates at least one route again.
\<close>

theorem second_run_routes_again:
  assumes "create_optimized_routes_for_day s net clk date_arg d = (res1, d1)"
    and "create_optimized_routes_for_day s2 net2 clk2 date_arg2 d1 = (res2, d2)"
    and "run_date clk2 date_arg2 = run_date clk date_arg"
    and "0 < routes_created (res1, d1)"
  shows "0 < routes_created (res2, d2)
     \<and> pending_orders d1 (run_date clk date_arg) \<noteq> []
     \<and> (\<exists>rs1. res1 = Inr rs1) \<and> (\<exists>rs2. res2 = Inr rs2)"
proof -
  from run_result [of s net clk date_arg d] assms(1)
  obtain rs1 where r1: "res1 = Inr rs1" by auto
  with assms(4) have ne: "rs1 \<noteq> []" by (simp add: routes_created_def)
  from assms(1) r1 have "create_optimized_routes_for_day s net clk date_arg d = (Inr rs1, d1)"
    by simp
  from rerun_routes [OF this ne assms(3), of s2 net2] assms(2)
  obtain rs2 where "res2 = Inr rs2" "rs2 \<noteq> []"
    "pending_orders d1 (run_date clk date_arg) \<noteq> []"
    by auto
  with r1 show ?thesis by (simp add: routes_created_def)
qed

lemma day_db_groups: "routed_groups net day_db 0 = [(1, [near_order])]"
  by (simp add: routed_groups_def group_orders_for_routing_def pending_orders_def day_db_def
      group_step_def order_courier_def near_order_def no_client_def car_courier_def
      assign_optimal_courier_def resolve_order_location_def nearer_def por_def por_default_def
      truthy_def group_append_def available_courier_def Let_def)

lemma day_db_first_run:
  "routes_created (create_optimized_routes_for_day s net demo_clock None day_db) = 1"
proof -
  have "run_date demo_clock None = 0" by (simp add: run_date_def demo_clock_def)
  with run_result [of s net demo_clock None day_db]
  obtain rs d' where "create_optimized_routes_for_day s net demo_clock None day_db = (Inr rs, d')"
    and "length rs = length (routed_groups net day_db 0)"
    by auto
  then show ?thesis by (simp add: routes_created_def day_db_groups)
qed

theorem second_run_routes_again_witness:
  "run_date demo_clock None = run_date demo_clock None
   \<and> 0 < routes_created (create_optimized_routes_for_day disabled_settings geometry_down_net
           demo_clock None day_db)
   \<and> 0 < routes_created (create_optimized_routes_for_day disabled_settings geometry_down_net
           demo_clock None day_db_after)"
proof -
  let ?run1 = "create_optimized_routes_for_day disabled_settings geometry_down_net
           demo_clock None day_db"
  let ?run2 = "create_optimized_routes_for_day disabled_settings geometry_down_net
           demo_clock None day_db_after"
  have 1: "?run1 = (fst ?run1, day_db_after)" by (simp add: day_db_after_def)
  have 2: "?run2 = (fst ?run2, snd ?run2)" by simp
  have 3: "0 < routes_created (fst ?run1, day_db_after)"
    unfolding 1 [symmetric] by (simp add: day_db_first_run)
  from second_run_routes_again [OF 1 2 refl 3]
  have "0 < routes_created ?run2" by simp
  with 3 show ?thesis unfolding 1 [symmetric] by simp
qed

text \<open>
  Claim C3 as stated fails: with one available courier and one new order, the first run
  creates one route, the order is still eligible after it, and a second run on the same
  date creates a route again.
\<close>

theorem second_run_zero_routes_counterexample:
  "routes_created (create_optimized_routes_for_day disabled_settings geometry_down_net
      demo_clock None day_db) = 1
   \<and> pending_orders day_db_after 0 \<noteq> []
   \<and> 0 < routes_created (create_optimized_routes_for_day disabled_settings geometry_down_net
           demo_clock None day_db_after)"
proof -
  let ?run1 = "create_optimized_routes_for_day disabled_settings geometry_down_net
           demo_clock None day_db"
  have d: "run_date demo_clock None = 0" by (simp add: run_date_def demo_clock_def)
  from run_result [of disabled_settings geometry_down_net demo_clock None day_db]
  obtain rs d' where r: "?run1 = (Inr rs, d')"
    and l: "length rs = length (routed_groups geometry_down_net day_db 0)"
    unfolding d by auto
  from l have ne: "rs \<noteq> []" by (auto simp: day_db_groups)
  from r have a: "day_db_after = d'" by (simp add: day_db_after_def)
  from rerun_routes [OF r ne refl, of disabled_settings geometry_down_net]
  obtain rs2 d2 where "create_optimized_routes_for_day disabled_settings geometry_down_net
      demo_clock None d' = (Inr rs2, d2)" "rs2 \<noteq> []" "pending_orders d' 0 \<noteq> []"
    unfolding d by auto
  then have "0 < routes_created (create_optimized_routes_for_day disabled_settings
      geometry_down_net demo_clock None d')" and "pending_orders d' 0 \<noteq> []"
    by (simp_all add: routes_created_def)
  moreover have "routes_created ?run1 = 1" by (rule day_db_first_run)
  ultimately show ?thesis unfolding a by (intro conjI)
qed

end
